theory Spec2Isabelle
  imports Complex_Main "HOL-Library.Word" "HOL-Library.Signed_Division"
begin

section \<open>Machine types of \<^verbatim>\<open>main.c\<close>\<close>

text \<open>
  The firmware runs on a 32-bit target: \<^verbatim>\<open>int\<close> is 32 bits wide, and every operand
  narrower than \<^verbatim>\<open>int\<close> (\<^verbatim>\<open>uint8_t\<close>, \<^verbatim>\<open>int8_t\<close>, \<^verbatim>\<open>uint16_t\<close>) is promoted to
  \<^verbatim>\<open>int\<close> before arithmetic. Stored values are words of the declared width; a
  signed one is read with \<open>sint\<close>, an unsigned one with \<open>uint\<close>. C's \<^verbatim>\<open>/\<close> on
  \<^verbatim>\<open>int\<close> truncates towards zero, which is \<open>sdiv\<close>.
\<close>

type_synonym uint8_t = "8 word"
type_synonym int8_t = "8 word"
type_synonym uint16_t = "16 word"
type_synonym uint32_t = "32 word"
type_synonym c_int = "32 word"

section \<open>The joystick: \<^verbatim>\<open>read_joystick\<close>\<close>

text \<open>
  \<^verbatim>\<open>read_joystick\<close> (lines 103--143). Its three inputs are what the two \<^verbatim>\<open>adc_read()\<close>
  calls and \<^verbatim>\<open>gpio_get(MOUSE_BUTTON_PIN)\<close> return; its three results are what it stores
  through \<^verbatim>\<open>x\<close>, \<^verbatim>\<open>y\<close> and \<^verbatim>\<open>button\<close>. The arithmetic is on promoted \<^verbatim>\<open>int\<close>s; the
  largest intermediate value is \<open>(65535 - 2148) * 127\<close>, far below \<open>2 ^ 31\<close>, so the
  model computes it on \<open>int\<close>. The cast \<^verbatim>\<open>(int8_t)\<close> keeps the low eight bits.
\<close>

definition center :: int where
  "center = 2048"

definition deadzone :: int where
  "deadzone = 100"

definition read_joystick :: "uint16_t \<Rightarrow> uint16_t \<Rightarrow> bool \<Rightarrow> int8_t \<times> int8_t \<times> uint8_t" where
  "read_joystick x_raw y_raw pin =
     (let button = (if \<not> pin then 1 else 0 :: uint8_t);
          x0 = (if uint x_raw > center + deadzone
                then word_of_int ((uint x_raw - center - deadzone) * 127 sdiv (4095 - center - deadzone))
                else if uint x_raw < center - deadzone
                then word_of_int ((uint x_raw - center + deadzone) * 127 sdiv (center - deadzone))
                else 0 :: int8_t);
          y0 = (if uint y_raw > center + deadzone
                then word_of_int ((uint y_raw - center - deadzone) * 127 sdiv (4095 - center - deadzone))
                else if uint y_raw < center - deadzone
                then word_of_int ((uint y_raw - center + deadzone) * 127 sdiv (center - deadzone))
                else 0 :: int8_t);
          x1 = (if sint x0 > 127 then 127 else x0);
          x2 = (if sint x1 < - 127 then - 127 else x1);
          y1 = (if sint y0 > 127 then 127 else y0);
          y2 = (if sint y1 < - 127 then - 127 else y1)
      in (x2, y2, button))"

section \<open>The command slot and the persistent variables\<close>

text \<open>
  The file-scope variable \<^verbatim>\<open>mouse_cmd\<close> (lines 60--67). The fields carry the prefix
  \<open>cmd_\<close> because \<open>x\<close> and \<open>y\<close> would otherwise become global constants.
\<close>

record mouse_cmd_t =
  cmd_buttons :: uint8_t
  cmd_x :: int8_t
  cmd_y :: int8_t
  cmd_wheel :: int8_t
  cmd_pan :: int8_t
  cmd_has_data :: bool

text \<open>
  The variables that outlive a call: the file-scope ones read or written by \<^verbatim>\<open>cdc_task\<close>
  and \<^verbatim>\<open>hid_task\<close> (lines 75, 79) and the \<^verbatim>\<open>static\<close> locals of \<^verbatim>\<open>hid_task\<close>
  (lines 369, 396--398; its \<^verbatim>\<open>start_ms\<close> is \<open>hid_start_ms\<close> here).
\<close>

record state =
  mouse_cmd :: mouse_cmd_t
  cdc_command_time :: uint32_t
  sensitivity_level :: uint8_t
  hid_start_ms :: uint32_t
  last_button_state :: uint8_t
  button_press_start_time :: uint32_t
  sensitivity_changed :: bool

definition CDC_BLOCK_TIMEOUT :: uint32_t where
  "CDC_BLOCK_TIMEOUT = 500"

definition BUTTON_PRESS_TIMEOUT :: uint32_t where
  "BUTTON_PRESS_TIMEOUT = 1000"

definition sensitivity_divisors :: "uint8_t list" where
  "sensitivity_divisors = [5, 10, 30]"

text \<open>The initialisers of lines 67, 75, 79, 369 and 396--398.\<close>

definition init_state :: state where
  "init_state =
     \<lparr>mouse_cmd = \<lparr>cmd_buttons = 0, cmd_x = 0, cmd_y = 0, cmd_wheel = 0, cmd_pan = 0,
                    cmd_has_data = False\<rparr>,
      cdc_command_time = 0,
      sensitivity_level = 2,
      hid_start_ms = 0,
      last_button_state = 0,
      button_press_start_time = 0,
      sensitivity_changed = False\<rparr>"

section \<open>The serial protocol: \<^verbatim>\<open>cdc_task\<close>\<close>

subsection \<open>The library call \<^verbatim>\<open>sscanf(buf, "%d %d %d %d %d %d %d", ...)\<close>\<close>

text \<open>
  \<^verbatim>\<open>sscanf\<close> belongs to the C library, not to this repository; the model follows the
  C standard (7.21.6.2). A \<^verbatim>\<open>%d\<close> directive skips white space (\<^verbatim>\<open>isspace\<close> in the C
  locale), then reads an optional sign and the longest run of decimal digits; with
  no digit the directive fails and the call returns. White space in the format
  skips white space in the input, which the following \<^verbatim>\<open>%d\<close> does anyway. Input
  after the last directive is left unread.

  The model returns the values assigned, in order; their number is the return value
  of the call wherever that is not \<^verbatim>\<open>EOF\<close>, and \<^verbatim>\<open>EOF\<close> is negative, so the test
  \<^verbatim>\<open>== 7\<close> of line 159 is \<open>length vs = 7\<close> in both cases.

  For a literal outside the range of \<^verbatim>\<open>int\<close> the standard leaves the conversion
  undefined, and libraries differ in what they store (some saturate, some keep the
  low bits). The model fixes no value there: what is stored for such a literal is
  the parameter \<open>ovf\<close> of the scanner and of everything that calls it, and every
  statement below holds for every \<open>ovf\<close>.
\<close>

definition isspace_c :: "char \<Rightarrow> bool" where
  "isspace_c c = (c \<in> {CHR '' '', CHR 0x09, CHR 0x0A, CHR 0x0B, CHR 0x0C, CHR 0x0D})"

definition isdigit_c :: "char \<Rightarrow> bool" where
  "isdigit_c c = (c \<in> set ''0123456789'')"

definition digit_val :: "char \<Rightarrow> int" where
  "digit_val c = of_char c - 48"

definition dec_val :: "string \<Rightarrow> int" where
  "dec_val ds = foldl (\<lambda>a c. 10 * a + digit_val c) 0 ds"

definition scan_d :: "string \<Rightarrow> (int \<times> string) option" where
  "scan_d s =
     (let s1 = dropWhile isspace_c s;
          neg = (s1 \<noteq> [] \<and> hd s1 = CHR ''-'');
          s2 = (if s1 \<noteq> [] \<and> (hd s1 = CHR ''-'' \<or> hd s1 = CHR ''+'') then tl s1 else s1);
          ds = takeWhile isdigit_c s2
      in if ds = [] then None
         else Some (if neg then - dec_val ds else dec_val ds, dropWhile isdigit_c s2))"

definition store_int :: "(int \<Rightarrow> c_int) \<Rightarrow> int \<Rightarrow> c_int" where
  "store_int ovf v =
     (if - 2147483648 \<le> v \<and> v \<le> 2147483647 then word_of_int v else ovf v)"

fun sscanf_d :: "(int \<Rightarrow> c_int) \<Rightarrow> nat \<Rightarrow> string \<Rightarrow> c_int list" where
  "sscanf_d ovf 0 s = []"
| "sscanf_d ovf (Suc n) s =
     (case scan_d s of
        None \<Rightarrow> []
      | Some (v, rest) \<Rightarrow> store_int ovf v # sscanf_d ovf n rest)"

text \<open>
  One behaviour of a library on such literals, for the statements that need a
  concrete one: saturation, as \<^verbatim>\<open>strtol\<close> does.
\<close>

definition ovf_saturate :: "int \<Rightarrow> c_int" where
  "ovf_saturate v = (if v < 0 then - 2147483648 else 2147483647)"

text \<open>The string a C function sees in a buffer: the bytes before the first NUL.\<close>

definition c_str :: "string \<Rightarrow> string" where
  "c_str buf = takeWhile (\<lambda>c. c \<noteq> CHR 0x00) buf"

subsection \<open>\<^verbatim>\<open>cdc_task\<close> (lines 150--179)\<close>

text \<open>
  \<open>rx\<close> is what the serial transport holds when the task runs: \<^verbatim>\<open>tud_cdc_available()\<close>
  is its length, and \<^verbatim>\<open>tud_cdc_read(buf, sizeof(buf)-1)\<close> copies its first 63 bytes
  into the zeroed 64-byte buffer. \<open>millis\<close> is what \<^verbatim>\<open>board_millis()\<close> returns on line
  168; \<open>sum_in\<close> is the variable \<^verbatim>\<open>sum\<close>. The sum of line 160 is computed on 32-bit
  words, so an overflow, which the C standard leaves undefined, wraps around as it
  does on this target. The second result is the text handed to
  \<^verbatim>\<open>tud_cdc_write_str\<close>, if any. \<open>ovf\<close> is the library's choice described above.
\<close>

definition ack_ok :: string where
  "ack_ok = ''ok'' @ [CHR 0x0A]"

definition ack_protocol_error :: string where
  "ack_protocol_error = ''protocol error'' @ [CHR 0x0A]"

definition ack_format_error :: string where
  "ack_format_error = ''format error'' @ [CHR 0x0A]"

definition cdc_task :: "(int \<Rightarrow> c_int) \<Rightarrow> string \<Rightarrow> uint32_t \<Rightarrow> state \<Rightarrow> state \<times> string option" where
  "cdc_task ovf rx millis st =
     (if length rx \<noteq> 0 then
        (let buf = take 63 rx;
             count = length buf
         in if count > 0 then
              (case sscanf_d ovf 7 (c_str buf) of
                 [head, btn, x, y, wheel, pan, sum_in] \<Rightarrow>
                   (let calc_sum = btn + x + y + wheel + pan
                    in if head = 55 \<and> calc_sum = sum_in then
                         (st\<lparr>mouse_cmd :=
                               \<lparr>cmd_buttons = ucast btn, cmd_x = ucast x, cmd_y = ucast y,
                                cmd_wheel = ucast wheel, cmd_pan = ucast pan,
                                cmd_has_data = True\<rparr>,
                             cdc_command_time := millis\<rparr>,
                          Some ack_ok)
                       else (st, Some ack_protocol_error))
               | _ \<Rightarrow> (st, Some ack_format_error))
            else (st, None))
      else (st, None))"

section \<open>The reports: \<^verbatim>\<open>hid_task\<close>\<close>

subsection \<open>The \<^verbatim>\<open>double\<close> arithmetic of lines 378--379\<close>

text \<open>
  The expression \<^verbatim>\<open>(rand() % 2) - 2 + mouse_cmd.x * 0.03\<close> is computed in IEEE 754
  binary64: the \<^verbatim>\<open>int8_t\<close> is converted exactly, the product and the sum are each
  rounded to the nearest \<^verbatim>\<open>double\<close> (ties to even), and the initialisation of the
  \<^verbatim>\<open>int8_t\<close> discards the fraction (C 6.3.1.4). A \<^verbatim>\<open>double\<close> is modelled by the rational
  it denotes. Every value here has a magnitude below 8 and is zero or at least
  \<open>1/128\<close>, so only normal numbers occur: \<open>binade n q\<close> is the exponent \<open>e\<close> with
  \<open>2 ^ e \<le> q < 2 ^ (e + 1)\<close>, searched in at most \<open>n\<close> steps, which for the
  \<open>n = 1100\<close> used below covers the whole exponent range of the format, and the
  significand has 53 bits.
\<close>

fun binade :: "nat \<Rightarrow> rat \<Rightarrow> int" where
  "binade 0 q = 0"
| "binade (Suc n) q =
     (if q < 1 then binade n (q * 2) - 1
      else if 2 \<le> q then binade n (q / 2) + 1
      else 0)"

definition round_ties_even :: "rat \<Rightarrow> int" where
  "round_ties_even q =
     (let f = \<lfloor>q\<rfloor>; d = q - of_int f
      in if d < 1 / 2 then f
         else if 1 / 2 < d then f + 1
         else if even f then f else f + 1)"

definition to_double :: "rat \<Rightarrow> rat" where
  "to_double q =
     (if q = 0 then 0
      else (let ulp = 2 powi (binade 1100 \<bar>q\<bar> - 52)
            in sgn q * of_int (round_ties_even (\<bar>q\<bar> / ulp)) * ulp))"

definition double_mult :: "rat \<Rightarrow> rat \<Rightarrow> rat" where
  "double_mult a b = to_double (a * b)"

definition double_add :: "rat \<Rightarrow> rat \<Rightarrow> rat" where
  "double_add a b = to_double (a + b)"

text \<open>Conversion of a \<^verbatim>\<open>double\<close> to an integer type: towards zero.\<close>

definition double_to_int :: "rat \<Rightarrow> int" where
  "double_to_int q = (if q < 0 then - \<lfloor>- q\<rfloor> else \<lfloor>q\<rfloor>)"

text \<open>
  The initialiser of \<^verbatim>\<open>rand_x\<close> and \<^verbatim>\<open>rand_y\<close>: \<open>r\<close> is what \<^verbatim>\<open>rand()\<close> returns, a number
  from 0 to \<^verbatim>\<open>RAND_MAX\<close>, and \<open>v\<close> the stored \<^verbatim>\<open>mouse_cmd.x\<close> or \<^verbatim>\<open>mouse_cmd.y\<close>.
\<close>

definition jitter :: "nat \<Rightarrow> int8_t \<Rightarrow> int8_t" where
  "jitter r v =
     word_of_int (double_to_int
       (double_add (of_int (int (r mod 2) - 2))
                   (double_mult (of_int (sint v)) (to_double (3 / 100)))))"

subsection \<open>\<^verbatim>\<open>hid_task\<close> (lines 361--457)\<close>

text \<open>
  What one call reads from its surroundings, in the order of the reads: the clock on
  line 370, \<^verbatim>\<open>tud_hid_ready()\<close>, the two \<^verbatim>\<open>rand()\<close> calls, the clock on line 385, the
  two ADC channels and the pin of the button.
\<close>

record hid_env =
  millis_gate :: uint32_t
  hid_ready :: bool
  rand_first :: nat
  rand_second :: nat
  millis_now :: uint32_t
  adc_x :: uint16_t
  adc_y :: uint16_t
  gpio_pin :: bool

text \<open>
  The arguments of \<^verbatim>\<open>tud_hid_mouse_report(REPORT_ID_MOUSE, buttons, x, y, vertical,
  horizontal)\<close>; the parameters \<^verbatim>\<open>x\<close> and \<^verbatim>\<open>y\<close> are \<^verbatim>\<open>int8_t\<close>, so an \<^verbatim>\<open>int\<close> argument
  is narrowed to its low eight bits.
\<close>

datatype hid_report = Mouse_report uint8_t int8_t int8_t int8_t int8_t

datatype error = Index_out_of_bounds

definition divisor_at :: "int \<Rightarrow> uint8_t option" where
  "divisor_at i =
     (if 0 \<le> i \<and> i < int (length sensitivity_divisors)
      then Some (sensitivity_divisors ! nat i) else None)"

text \<open>
  Lines 390--434, the joystick path, entered with the \<^verbatim>\<open>current_time\<close> of line 385.
  An index outside \<^verbatim>\<open>sensitivity_divisors\<close> has no defined result in C and is an
  error of the model.
\<close>

definition joystick_path :: "uint32_t \<Rightarrow> hid_env \<Rightarrow> state \<Rightarrow> error + state \<times> hid_report option" where
  "joystick_path current_time env st =
     (let (joystick_x, joystick_y, button_state) =
            read_joystick (adc_x env) (adc_y env) (gpio_pin env);
          st1 = (if button_state \<noteq> 0 \<and> \<not> (last_button_state st \<noteq> 0) then
                   st\<lparr>button_press_start_time := current_time, sensitivity_changed := False\<rparr>
                 else if button_state \<noteq> 0 \<and> \<not> sensitivity_changed st \<and>
                         current_time - button_press_start_time st \<ge> BUTTON_PRESS_TIMEOUT then
                   st\<lparr>sensitivity_level :=
                        (if uint (sensitivity_level st + 1) > 3 then 1
                         else sensitivity_level st + 1),
                      sensitivity_changed := True\<rparr>
                 else st);
          st2 = st1\<lparr>last_button_state := button_state\<rparr>
      in case divisor_at (uint (sensitivity_level st2) - 1) of
           None \<Rightarrow> Inl Index_out_of_bounds
         | Some current_divisor \<Rightarrow>
             (let mouse_x = (word_of_int (sint joystick_x sdiv uint current_divisor) :: int8_t);
                  mouse_y = (if sensitivity_level st2 = 1 \<or> sensitivity_level st2 = 2
                             then word_of_int (sint joystick_y sdiv (uint current_divisor * 4))
                             else word_of_int (sint joystick_y sdiv uint current_divisor) :: int8_t)
              in Inr (st2,
                      if mouse_x \<noteq> 0 \<or> mouse_y \<noteq> 0 then Some (Mouse_report 0 mouse_x mouse_y 0 0)
                      else if button_state \<noteq> 0 \<and> \<not> sensitivity_changed st2
                      then Some (Mouse_report 1 0 0 0 0)
                      else None)))"

definition hid_task :: "hid_env \<Rightarrow> state \<Rightarrow> error + state \<times> hid_report option" where
  "hid_task env st =
     (if millis_gate env - hid_start_ms st < 1 then Inr (st, None)
      else (let st0 = st\<lparr>hid_start_ms := hid_start_ms st + 1\<rparr>
            in if \<not> hid_ready env then Inr (st0, None)
               else if cmd_has_data (mouse_cmd st0) then
                 (let rand_x = jitter (rand_first env) (cmd_x (mouse_cmd st0));
                      rand_y = jitter (rand_second env) (cmd_y (mouse_cmd st0))
                  in Inr (st0\<lparr>mouse_cmd := (mouse_cmd st0)\<lparr>cmd_has_data := False\<rparr>\<rparr>,
                          Some (Mouse_report
                                  (cmd_buttons (mouse_cmd st0))
                                  (word_of_int (sint (cmd_x (mouse_cmd st0)) + sint rand_x))
                                  (word_of_int (sint (cmd_y (mouse_cmd st0)) + sint rand_y))
                                  (cmd_wheel (mouse_cmd st0))
                                  (cmd_pan (mouse_cmd st0)))))
               else (let current_time = millis_now env
                     in if current_time - cdc_command_time st0 < CDC_BLOCK_TIMEOUT
                        then Inr (st0, None)
                        else joystick_path current_time env st0)))"

section \<open>The control loop: \<^verbatim>\<open>main\<close>\<close>

text \<open>
  One turn of the \<^verbatim>\<open>while (1)\<close> of lines 199--206 calls \<^verbatim>\<open>hid_task\<close> and then
  \<^verbatim>\<open>cdc_task\<close> (\<^verbatim>\<open>tud_task\<close> and \<^verbatim>\<open>led_blinking_task\<close> touch none of the variables
  above). The loop never ends; \<open>main_loop\<close> runs it for as many turns as it is
  given inputs and returns the last state with what each turn emitted.
\<close>

record loop_input =
  hid_in :: hid_env
  cdc_rx :: string
  cdc_millis :: uint32_t

fun main_loop ::
  "(int \<Rightarrow> c_int) \<Rightarrow> loop_input list \<Rightarrow> state
     \<Rightarrow> error + state \<times> (hid_report option \<times> string option) list" where
  "main_loop ovf [] st = Inr (st, [])"
| "main_loop ovf (i # is) st =
     (case hid_task (hid_in i) st of
        Inl e \<Rightarrow> Inl e
      | Inr (st1, rep) \<Rightarrow>
          (let (st2, ack) = cdc_task ovf (cdc_rx i) (cdc_millis i) st1
           in case main_loop ovf is st2 of
                Inl e \<Rightarrow> Inl e
              | Inr (st3, outs) \<Rightarrow> Inr (st3, (rep, ack) # outs)))"

section \<open>The specification's formulas\<close>

text \<open>
  The definitions of this section are written from the specification, to be compared
  with the functions above.

  The axis formula (section 4.4), on a raw sample \<open>v\<close>; its division is the integer
  division of the C expression, \<open>sdiv\<close>.
\<close>

definition spec_axis_delta :: "int \<Rightarrow> int" where
  "spec_axis_delta v =
     (if v > center + deadzone then (v - center - deadzone) * 127 sdiv (4095 - center - deadzone)
      else if v < center - deadzone then (v - center + deadzone) * 127 sdiv (center - deadzone)
      else 0)"

text \<open>The divisor table (section 4.4): level 1: 5, level 2: 10, level 3: 30.\<close>

definition spec_divisor_table :: "uint8_t \<rightharpoonup> int" where
  "spec_divisor_table = [1 \<mapsto> 5, 2 \<mapsto> 10, 3 \<mapsto> 30]"


text \<open>
  A line (section 4.1): its white-space separated tokens; a decimal integer is an
  optional sign followed by at least one digit, and \<open>token_val\<close> is the number it
  denotes; the line is well formed when it consists of exactly seven of them.
\<close>

function tokens :: "string \<Rightarrow> string list" where
  "tokens s =
     (case dropWhile isspace_c s of
        [] \<Rightarrow> []
      | c # cs \<Rightarrow> (c # takeWhile (\<lambda>x. \<not> isspace_c x) cs)
                  # tokens (dropWhile (\<lambda>x. \<not> isspace_c x) cs))"
  by pat_completeness auto
termination
proof (relation "measure length")
  show "wf (measure length)" by simp
next
  fix s :: string and c cs
  assume "dropWhile isspace_c s = c # cs"
  then have "length (c # cs) \<le> length s"
    using length_dropWhile_le [of isspace_c s] by simp
  moreover have "length (dropWhile (\<lambda>x. \<not> isspace_c x) cs) \<le> length cs"
    by (rule length_dropWhile_le)
  ultimately show "(dropWhile (\<lambda>x. \<not> isspace_c x) cs, s) \<in> measure length"
    by simp
qed

declare tokens.simps [simp del]

definition is_int_token :: "string \<Rightarrow> bool" where
  "is_int_token t =
     (let ds = (if t \<noteq> [] \<and> (hd t = CHR ''-'' \<or> hd t = CHR ''+'') then tl t else t)
      in ds \<noteq> [] \<and> list_all isdigit_c ds)"

definition token_val :: "string \<Rightarrow> int" where
  "token_val t =
     (if t \<noteq> [] \<and> hd t = CHR ''-'' then - dec_val (tl t)
      else if t \<noteq> [] \<and> hd t = CHR ''+'' then dec_val (tl t)
      else dec_val t)"

definition spec_seven_ints :: "string \<Rightarrow> bool" where
  "spec_seven_ints line = (length (tokens line) = 7 \<and> list_all is_int_token (tokens line))"

text \<open>
  A line that begins with integers: \<open>leading_ints line lits\<close> says that the text of
  \<open>line\<close> starts with the decimal integers \<open>lits\<close>, in this order, each after any
  amount of white space (none included) and each taken as far as its digits go; what
  comes after the last of them is not constrained. This is the reading of ``seven
  integers parse'' that asks nothing of the rest of the line. \<open>in_int_range\<close> are the
  values an \<^verbatim>\<open>int\<close> of this target holds.
\<close>

fun leading_ints :: "string \<Rightarrow> string list \<Rightarrow> bool" where
  "leading_ints s [] = True"
| "leading_ints s (lit # lits) =
     (let s1 = dropWhile isspace_c s;
          rest = drop (length lit) s1
      in is_int_token lit \<and> take (length lit) s1 = lit
         \<and> (rest = [] \<or> \<not> isdigit_c (hd rest))
         \<and> leading_ints rest lits)"

definition in_int_range :: "int \<Rightarrow> bool" where
  "in_int_range v = (- 2147483648 \<le> v \<and> v \<le> 2147483647)"

section \<open>Observations and parts of the code\<close>

text \<open>
  The definitions of this section name what the statements below observe, and parts
  of the functions above that the proofs treat on their own.

  The motion a tick sends to the host: the \<open>x\<close> and \<open>y\<close> of its report, and no motion
  when it sends none.
\<close>

fun report_dx :: "hid_report option \<Rightarrow> int" where
  "report_dx None = 0"
| "report_dx (Some (Mouse_report b dx dy w p)) = sint dx"

fun report_dy :: "hid_report option \<Rightarrow> int" where
  "report_dy None = 0"
| "report_dy (Some (Mouse_report b dx dy w p)) = sint dy"

text \<open>
  The number of turns of the control loop, among those given, in which
  \<^verbatim>\<open>sensitivity_level\<close> changes.
\<close>

fun level_changes :: "(int \<Rightarrow> c_int) \<Rightarrow> loop_input list \<Rightarrow> state \<Rightarrow> nat" where
  "level_changes ovf [] st = 0"
| "level_changes ovf (i # is) st =
     (case hid_task (hid_in i) st of
        Inl e \<Rightarrow> 0
      | Inr (st1, rep) \<Rightarrow>
          (if sensitivity_level st1 \<noteq> sensitivity_level st then 1 else 0)
          + level_changes ovf is (fst (cdc_task ovf (cdc_rx i) (cdc_millis i) st1)))"


text \<open>
  The effect of lines 139--142 on one \<^verbatim>\<open>int8_t\<close>: the tests against 127 can never
  succeed, the tests against \<open>-127\<close> succeed for \<open>-128\<close> only.
\<close>

definition clamp_low :: "int8_t \<Rightarrow> int8_t" where
  "clamp_low w = (if sint w < - 127 then - 127 else w)"

text \<open>
  Lines 401--413, the long-press handling, on the \<^verbatim>\<open>button_state\<close> read; and that
  \<^verbatim>\<open>button_state\<close> itself, \<^verbatim>\<open>!gpio_get(MOUSE_BUTTON_PIN)\<close>.
\<close>

definition sens_update :: "uint32_t \<Rightarrow> uint8_t \<Rightarrow> state \<Rightarrow> state" where
  "sens_update current_time button_state st =
     (if button_state \<noteq> 0 \<and> \<not> (last_button_state st \<noteq> 0) then
        st\<lparr>button_press_start_time := current_time, sensitivity_changed := False\<rparr>
      else if button_state \<noteq> 0 \<and> \<not> sensitivity_changed st \<and>
              current_time - button_press_start_time st \<ge> BUTTON_PRESS_TIMEOUT then
        st\<lparr>sensitivity_level :=
             (if uint (sensitivity_level st + 1) > 3 then 1 else sensitivity_level st + 1),
           sensitivity_changed := True\<rparr>
      else st)
     \<lparr>last_button_state := button_state\<rparr>"

definition pressed :: "hid_env \<Rightarrow> uint8_t" where
  "pressed env = (if gpio_pin env then 0 else 1)"

text \<open>The command that lines 162--167 store for the scanned values.\<close>

definition stored_cmd :: "c_int \<Rightarrow> c_int \<Rightarrow> c_int \<Rightarrow> c_int \<Rightarrow> c_int \<Rightarrow> mouse_cmd_t" where
  "stored_cmd btn x y wheel pan =
     \<lparr>cmd_buttons = ucast btn, cmd_x = ucast x, cmd_y = ucast y,
      cmd_wheel = ucast wheel, cmd_pan = ucast pan, cmd_has_data = True\<rparr>"

section \<open>Properties\<close>

subsection \<open>The axis mapping\<close>

lemma sdiv_nonneg: "0 \<le> a \<Longrightarrow> 0 < b \<Longrightarrow> (a::int) sdiv b = a div b"
  by (simp add: signed_divide_int_def sgn_if)

lemma sdiv_nonpos: "a \<le> 0 \<Longrightarrow> 0 < b \<Longrightarrow> (a::int) sdiv b = - ((- a) div b)"
  by (simp add: signed_divide_int_def sgn_if)

lemma abs_sdiv: "0 < d \<Longrightarrow> \<bar>(a::int) sdiv d\<bar> = \<bar>a\<bar> div d"
  by (cases "0 \<le> a") (simp_all add: sdiv_nonneg sdiv_nonpos pos_imp_zdiv_nonneg_iff)

lemma sint_int8: "- 128 \<le> k \<Longrightarrow> k < 128 \<Longrightarrow> sint (word_of_int k :: 8 word) = k"
  by (simp add: signed_take_bit_int_eq_self sint_sbintrunc')

lemma sint8_range: "- 128 \<le> sint (w :: 8 word) \<and> sint w \<le> 127"
  using sint_ge [of w] sint_lt [of w] by simp

lemma spec_axis_delta_pos:
  "2148 < v \<Longrightarrow> spec_axis_delta v = (v - 2148) * 127 div 1947"
  by (simp add: spec_axis_delta_def center_def deadzone_def sdiv_nonneg)

lemma spec_axis_delta_neg:
  "v < 1948 \<Longrightarrow> spec_axis_delta v = - ((1948 - v) * 127 div 1948)"
  by (simp add: spec_axis_delta_def center_def deadzone_def sdiv_nonpos)

lemma spec_axis_delta_mid:
  "1948 \<le> v \<Longrightarrow> v \<le> 2148 \<Longrightarrow> spec_axis_delta v = 0"
  by (simp add: spec_axis_delta_def center_def deadzone_def)

lemma spec_axis_delta_range:
  assumes "0 \<le> v" "v \<le> 4095"
  shows "- 127 \<le> spec_axis_delta v \<and> spec_axis_delta v \<le> 127"
proof -
  consider "2148 < v" | "v < 1948" | "1948 \<le> v \<and> v \<le> 2148" by linarith
  then show ?thesis
  proof cases
    case 1
    then show ?thesis using assms by (simp add: spec_axis_delta_pos) linarith
  next
    case 2
    then show ?thesis using assms by (simp add: spec_axis_delta_neg) linarith
  next
    case 3
    then show ?thesis by (simp add: spec_axis_delta_mid)
  qed
qed

lemma read_joystick_unfold:
  "read_joystick x_raw y_raw pin =
     (clamp_low (word_of_int (spec_axis_delta (uint x_raw))),
      clamp_low (word_of_int (spec_axis_delta (uint y_raw))),
      if pin then 0 else 1)"
proof -
  have gt: "\<not> 127 < sint w" for w :: int8_t
    using sint8_range [of w] by simp
  show ?thesis
    unfolding read_joystick_def Let_def clamp_low_def spec_axis_delta_def
    by (simp add: gt)
qed

lemma sint_clamp_low_axis:
  assumes "uint v \<le> 4095"
  shows "sint (clamp_low (word_of_int (spec_axis_delta (uint v)))) = spec_axis_delta (uint v)"
proof -
  have r: "- 127 \<le> spec_axis_delta (uint v) \<and> spec_axis_delta (uint v) \<le> 127"
    using assms by (intro spec_axis_delta_range) simp_all
  then have "sint (word_of_int (spec_axis_delta (uint v)) :: int8_t) = spec_axis_delta (uint v)"
    by (intro sint_int8) simp_all
  with r show ?thesis by (simp add: clamp_low_def)
qed

text \<open>
  Claim C4. For raw samples between 0 and 4095, each axis delta stored by
  \<^verbatim>\<open>read_joystick\<close> is the value of the specification's formula on that axis's own
  sample: \<open>(v - center - deadzone) * 127 / (4095 - center - deadzone)\<close> above the
  deadzone, \<open>(v - center + deadzone) * 127 / (center - deadzone)\<close> below it and 0
  inside it. The result lies between \<open>-127\<close> and 127, the Y axis is computed by the
  same formula as the X axis, without inversion, and the centre sample 2048 gives 0.
\<close>

theorem axis_mapping_formula:
  assumes "uint x_raw \<le> 4095" and "uint y_raw \<le> 4095"
  shows "sint (fst (read_joystick x_raw y_raw pin)) = spec_axis_delta (uint x_raw)
       \<and> sint (fst (snd (read_joystick x_raw y_raw pin))) = spec_axis_delta (uint y_raw)
       \<and> - 127 \<le> sint (fst (read_joystick x_raw y_raw pin))
       \<and> sint (fst (read_joystick x_raw y_raw pin)) \<le> 127
       \<and> - 127 \<le> sint (fst (snd (read_joystick x_raw y_raw pin)))
       \<and> sint (fst (snd (read_joystick x_raw y_raw pin))) \<le> 127
       \<and> fst (read_joystick 2048 y_raw pin) = 0
       \<and> fst (snd (read_joystick x_raw 2048 pin)) = 0"
proof -
  have x: "sint (fst (read_joystick x_raw y_raw pin)) = spec_axis_delta (uint x_raw)"
    using assms(1) by (simp add: read_joystick_unfold sint_clamp_low_axis)
  have y: "sint (fst (snd (read_joystick x_raw y_raw pin))) = spec_axis_delta (uint y_raw)"
    using assms(2) by (simp add: read_joystick_unfold sint_clamp_low_axis)
  have rx: "- 127 \<le> spec_axis_delta (uint x_raw) \<and> spec_axis_delta (uint x_raw) \<le> 127"
    using assms(1) by (intro spec_axis_delta_range) simp_all
  have ry: "- 127 \<le> spec_axis_delta (uint y_raw) \<and> spec_axis_delta (uint y_raw) \<le> 127"
    using assms(2) by (intro spec_axis_delta_range) simp_all
  have c: "clamp_low (word_of_int (spec_axis_delta (uint (2048 :: uint16_t)))) = 0"
    by (simp add: spec_axis_delta_mid clamp_low_def)
  show ?thesis
    using x y rx ry c by (simp add: read_joystick_unfold)
qed

theorem axis_mapping_formula_witness:
  "uint (4095 :: uint16_t) \<le> 4095 \<and> uint (0 :: uint16_t) \<le> 4095
   \<and> sint (fst (read_joystick 4095 0 False)) = 127
   \<and> sint (fst (snd (read_joystick 4095 0 False))) = - 127
   \<and> spec_axis_delta 4095 = 127 \<and> spec_axis_delta 0 = - 127"
proof -
  have h1: "uint (4095 :: uint16_t) \<le> 4095" by simp
  have h2: "uint (0 :: uint16_t) \<le> 4095" by simp
  have v1: "spec_axis_delta 4095 = 127"
    by (simp add: spec_axis_delta_pos)
  have v2: "spec_axis_delta 0 = - 127"
    by (simp add: spec_axis_delta_neg)
  show ?thesis
    using axis_mapping_formula [OF h1 h2, of False] v1 v2 by simp
qed

subsection \<open>The joystick path\<close>

lemma joystick_path_unfold:
  "joystick_path t env st =
     (let st2 = sens_update t (pressed env) st;
          jx = clamp_low (word_of_int (spec_axis_delta (uint (adc_x env))));
          jy = clamp_low (word_of_int (spec_axis_delta (uint (adc_y env))))
      in case divisor_at (uint (sensitivity_level st2) - 1) of
           None \<Rightarrow> Inl Index_out_of_bounds
         | Some current_divisor \<Rightarrow>
             (let mouse_x = (word_of_int (sint jx sdiv uint current_divisor) :: int8_t);
                  mouse_y = (if sensitivity_level st2 = 1 \<or> sensitivity_level st2 = 2
                             then word_of_int (sint jy sdiv (uint current_divisor * 4))
                             else word_of_int (sint jy sdiv uint current_divisor) :: int8_t)
              in Inr (st2,
                      if mouse_x \<noteq> 0 \<or> mouse_y \<noteq> 0 then Some (Mouse_report 0 mouse_x mouse_y 0 0)
                      else if pressed env \<noteq> 0 \<and> \<not> sensitivity_changed st2
                      then Some (Mouse_report 1 0 0 0 0)
                      else None)))"
  unfolding joystick_path_def read_joystick_unfold sens_update_def pressed_def Let_def
  by (simp cong: if_cong)

lemma level_cases:
  "sensitivity_level st \<in> {1, 2, 3} \<Longrightarrow>
   (if uint (sensitivity_level st + 1) > 3 then 1 else sensitivity_level st + 1) \<in> {1, 2, 3 :: uint8_t}"
  by auto

lemma sens_update_level:
  "sensitivity_level st \<in> {1, 2, 3} \<Longrightarrow> sensitivity_level (sens_update t b st) \<in> {1, 2, 3}"
  unfolding sens_update_def using level_cases [of st] by auto

lemma divisor_at_level:
  "l \<in> {1, 2, 3 :: uint8_t} \<Longrightarrow>
   \<exists>d. divisor_at (uint l - 1) = Some d \<and> spec_divisor_table l = Some (uint d) \<and> 5 \<le> uint d \<and> uint d \<le> 30"
  by (auto simp: divisor_at_def sensitivity_divisors_def spec_divisor_table_def)

lemma sint_sdiv_int8:
  assumes "2 \<le> d"
  shows "sint (word_of_int (sint (w :: int8_t) sdiv d) :: int8_t) = sint w sdiv d"
proof -
  have "\<bar>sint w sdiv d\<bar> = \<bar>sint w\<bar> div d"
    using assms by (simp add: abs_sdiv)
  also have "\<dots> \<le> \<bar>sint w\<bar> div 2"
    using assms by (intro zdiv_mono2) simp_all
  also have "\<dots> \<le> 64"
    using sint8_range [of w] by linarith
  finally have "\<bar>sint w sdiv d\<bar> \<le> 64" .
  then show ?thesis by (intro sint_int8) linarith+
qed

lemma divisor_at_Some:
  assumes "divisor_at (uint l - 1) = Some d"
  shows "l \<in> {1, 2, 3 :: uint8_t}"
proof -
  have "1 \<le> uint l \<and> uint l \<le> 3"
    using assms by (simp add: divisor_at_def sensitivity_divisors_def split: if_splits)
  then have "uint l = 1 \<or> uint l = 2 \<or> uint l = 3" by linarith
  then have "l = word_of_int 1 \<or> l = word_of_int 2 \<or> l = word_of_int 3"
    by (metis word_of_int_uint)
  then show ?thesis by simp
qed

lemma joystick_path_Inr_level:
  assumes "joystick_path t env st = Inr (st', rep)"
  shows "st' = sens_update t (pressed env) st \<and> sensitivity_level st' \<in> {1, 2, 3}"
proof -
  obtain d where d: "divisor_at (uint (sensitivity_level (sens_update t (pressed env) st)) - 1) = Some d"
    using assms unfolding joystick_path_unfold Let_def by (auto split: option.splits)
  have "st' = sens_update t (pressed env) st"
    using assms d unfolding joystick_path_unfold Let_def by simp
  then show ?thesis using divisor_at_Some [OF d] by simp
qed

lemma joystick_path_Inr_motion:
  assumes "joystick_path t env st = Inr (st', rep)"
  shows "\<exists>d. spec_divisor_table (sensitivity_level st') = Some d \<and> 5 \<le> d
         \<and> report_dx rep = sint (fst (read_joystick (adc_x env) (adc_y env) (gpio_pin env))) sdiv d
         \<and> report_dy rep = sint (fst (snd (read_joystick (adc_x env) (adc_y env) (gpio_pin env))))
                             sdiv (if sensitivity_level st' = 1 \<or> sensitivity_level st' = 2
                                   then d * 4 else d)"
proof -
  define st2 where "st2 = sens_update t (pressed env) st"
  define jx where "jx = clamp_low (word_of_int (spec_axis_delta (uint (adc_x env))))"
  define jy where "jy = clamp_low (word_of_int (spec_axis_delta (uint (adc_y env))))"
  have st': "st' = st2" and lv: "sensitivity_level st2 \<in> {1, 2, 3}"
    using joystick_path_Inr_level [OF assms] unfolding st2_def by blast+
  from lv obtain d where d: "divisor_at (uint (sensitivity_level st2) - 1) = Some d"
      "spec_divisor_table (sensitivity_level st2) = Some (uint d)" "5 \<le> uint d" "uint d \<le> 30"
    using divisor_at_level by blast
  define dy where "dy = (if sensitivity_level st2 = 1 \<or> sensitivity_level st2 = 2
                          then uint d * 4 else uint d)"
  define mx :: int8_t where "mx = word_of_int (sint jx sdiv uint d)"
  define my :: int8_t where "my = word_of_int (sint jy sdiv dy)"
  have mx: "sint mx = sint jx sdiv uint d"
    unfolding mx_def using d(3) by (intro sint_sdiv_int8) simp
  have my: "sint my = sint jy sdiv dy"
    unfolding my_def dy_def using d(3) by (intro sint_sdiv_int8) simp
  define rep2 where "rep2 = (if mx \<noteq> 0 \<or> my \<noteq> 0 then Some (Mouse_report 0 mx my 0 0)
                      else if pressed env \<noteq> 0 \<and> \<not> sensitivity_changed st2
                      then Some (Mouse_report 1 0 0 0 0)
                      else None)"
  have run: "joystick_path t env st = Inr (st2, rep2)"
    unfolding joystick_path_unfold rep2_def mx_def my_def dy_def
    by (simp add: Let_def d(1) flip: st2_def jx_def jy_def)
  then have rep: "rep = rep2" using assms by simp
  have rx: "report_dx rep2 = sint mx" and ry: "report_dy rep2 = sint my"
    unfolding rep2_def by auto
  show ?thesis
    using rx ry mx my d(2,3) st' rep
    by (simp add: read_joystick_unfold jx_def jy_def dy_def)
qed

lemma joystick_path_total:
  assumes "sensitivity_level st \<in> {1, 2, 3}"
  shows "\<exists>rep. joystick_path t env st = Inr (sens_update t (pressed env) st, rep)"
proof -
  have "sensitivity_level (sens_update t (pressed env) st) \<in> {1, 2, 3}"
    using assms by (rule sens_update_level)
  then obtain d where "divisor_at (uint (sensitivity_level (sens_update t (pressed env) st)) - 1) = Some d"
    using divisor_at_level by blast
  then show ?thesis
    unfolding joystick_path_unfold Let_def by simp
qed

lemma spec_axis_delta_mono:
  assumes "(2148 < a \<and> a \<le> b) \<or> (0 \<le> b \<and> b \<le> a \<and> a < 1948)"
  shows "\<bar>spec_axis_delta a\<bar> \<le> \<bar>spec_axis_delta b\<bar>"
  using assms
proof
  assume h: "2148 < a \<and> a \<le> b"
  then have "(a - 2148) * 127 div 1947 \<le> (b - 2148) * 127 div 1947"
    by (intro zdiv_mono1) simp_all
  moreover have "0 \<le> (a - 2148) * 127 div 1947" using h by (intro pos_imp_zdiv_nonneg_iff [THEN iffD2]) simp_all
  ultimately show ?thesis using h by (simp add: spec_axis_delta_pos)
next
  assume h: "0 \<le> b \<and> b \<le> a \<and> a < 1948"
  then have "(1948 - a) * 127 div 1948 \<le> (1948 - b) * 127 div 1948"
    by (intro zdiv_mono1) simp_all
  moreover have "0 \<le> (1948 - a) * 127 div 1948" using h by (intro pos_imp_zdiv_nonneg_iff [THEN iffD2]) simp_all
  ultimately show ?thesis using h by (simp add: spec_axis_delta_neg)
qed

lemma abs_sdiv_mono:
  "0 < d \<Longrightarrow> \<bar>a\<bar> \<le> \<bar>b\<bar> \<Longrightarrow> \<bar>(a::int) sdiv d\<bar> \<le> \<bar>b sdiv d\<bar>"
  by (simp add: abs_sdiv zdiv_mono1)

text \<open>
  Claim C5. On the joystick path the delta of each axis is divided, with C's
  division towards zero, by the divisor the table gives for the sensitivity level in
  force after the long-press handling of the same tick: 5, 10 and 30 for the
  levels 1, 2 and 3. At the levels 1 and 2 the Y axis is divided by four times that
  divisor, at level 3 by the divisor itself.
\<close>

theorem sensitivity_scaling:
  assumes "sensitivity_level st \<in> {1, 2, 3}"
  shows "\<exists>st' rep d.
           joystick_path t env st = Inr (st', rep)
         \<and> spec_divisor_table (sensitivity_level st') = Some d
         \<and> report_dx rep = sint (fst (read_joystick (adc_x env) (adc_y env) (gpio_pin env))) sdiv d
         \<and> report_dy rep = sint (fst (snd (read_joystick (adc_x env) (adc_y env) (gpio_pin env))))
                             sdiv (if sensitivity_level st' = 1 \<or> sensitivity_level st' = 2
                                   then d * 4 else d)"
proof -
  obtain rep where run: "joystick_path t env st = Inr (sens_update t (pressed env) st, rep)"
    using joystick_path_total [OF assms] by blast
  from joystick_path_Inr_motion [OF run] run show ?thesis by blast
qed

theorem sensitivity_scaling_witness:
  "sensitivity_level init_state \<in> {1, 2, 3}
   \<and> (\<exists>st' rep d.
         joystick_path 600
           \<lparr>millis_gate = 600, hid_ready = True, rand_first = 0, rand_second = 0,
            millis_now = 600, adc_x = 4095, adc_y = 0, gpio_pin = True\<rparr> init_state = Inr (st', rep)
       \<and> spec_divisor_table (sensitivity_level st') = Some d
       \<and> report_dx rep = 127 sdiv d
       \<and> report_dy rep = (- 127) sdiv (if sensitivity_level st' = 1 \<or> sensitivity_level st' = 2
                                        then d * 4 else d))
   \<and> (- 127 :: int) sdiv 40 = - 3"
proof -
  have h: "sensitivity_level init_state \<in> {1, 2, 3}"
    by (simp add: init_state_def)
  have j: "read_joystick 4095 0 True = (127, - 127, 0)"
    by (simp add: read_joystick_def center_def deadzone_def signed_divide_int_def)
  have s: "(- 127 :: int) sdiv 40 = - 3"
    by (simp add: signed_divide_int_def)
  show ?thesis
    using sensitivity_scaling [OF h, of 600
        "\<lparr>millis_gate = 600, hid_ready = True, rand_first = 0, rand_second = 0,
          millis_now = 600, adc_x = 4095, adc_y = 0, gpio_pin = True\<rparr>"] h j s
    by simp
qed

text \<open>
  Claim C9. Of two raw samples between 0 and 4095 that lie outside the deadzone on
  the same side of the centre, the one farther from the centre never gives the delta
  of smaller magnitude: neither in what \<^verbatim>\<open>read_joystick\<close> stores, on either axis, nor
  in the motion reported after the division, at equal sensitivity level.
\<close>

theorem axis_monotonic:
  assumes "(2148 < uint v \<and> uint v \<le> uint w \<and> uint w \<le> 4095)
         \<or> (uint w \<le> uint v \<and> uint v < 1948)"
  shows "\<bar>sint (fst (read_joystick v y1 p1))\<bar> \<le> \<bar>sint (fst (read_joystick w y2 p2))\<bar>
       \<and> \<bar>sint (fst (snd (read_joystick x1 v p1)))\<bar> \<le> \<bar>sint (fst (snd (read_joystick x2 w p2)))\<bar>
       \<and> (joystick_path t1 e1 s1 = Inr (s1', r1) \<and> joystick_path t2 e2 s2 = Inr (s2', r2)
            \<and> sensitivity_level s1' = sensitivity_level s2'
          \<longrightarrow> (adc_x e1 = v \<and> adc_x e2 = w \<longrightarrow> \<bar>report_dx r1\<bar> \<le> \<bar>report_dx r2\<bar>)
            \<and> (adc_y e1 = v \<and> adc_y e2 = w \<longrightarrow> \<bar>report_dy r1\<bar> \<le> \<bar>report_dy r2\<bar>))"
proof -
  have bv: "uint v \<le> 4095" and bw: "uint w \<le> 4095"
    using assms by auto
  have m: "\<bar>spec_axis_delta (uint v)\<bar> \<le> \<bar>spec_axis_delta (uint w)\<bar>"
    using assms by (intro spec_axis_delta_mono) auto
  have X: "\<bar>sint (fst (read_joystick v y p))\<bar> \<le> \<bar>sint (fst (read_joystick w y' p'))\<bar>" for y p y' p'
    using m bv bw by (simp add: read_joystick_unfold sint_clamp_low_axis)
  have Y: "\<bar>sint (fst (snd (read_joystick x v p)))\<bar> \<le> \<bar>sint (fst (snd (read_joystick x' w p')))\<bar>"
    for x p x' p'
    using m bv bw by (simp add: read_joystick_unfold sint_clamp_low_axis)
  have D: "(adc_x e1 = v \<and> adc_x e2 = w \<longrightarrow> \<bar>report_dx r1\<bar> \<le> \<bar>report_dx r2\<bar>)
         \<and> (adc_y e1 = v \<and> adc_y e2 = w \<longrightarrow> \<bar>report_dy r1\<bar> \<le> \<bar>report_dy r2\<bar>)"
    if r1: "joystick_path t1 e1 s1 = Inr (s1', r1)" and r2: "joystick_path t2 e2 s2 = Inr (s2', r2)"
      and eq: "sensitivity_level s1' = sensitivity_level s2'"
  proof -
    obtain d1 where d1: "spec_divisor_table (sensitivity_level s1') = Some d1" "5 \<le> d1"
      "report_dx r1 = sint (fst (read_joystick (adc_x e1) (adc_y e1) (gpio_pin e1))) sdiv d1"
      "report_dy r1 = sint (fst (snd (read_joystick (adc_x e1) (adc_y e1) (gpio_pin e1))))
                       sdiv (if sensitivity_level s1' = 1 \<or> sensitivity_level s1' = 2
                             then d1 * 4 else d1)"
      using joystick_path_Inr_motion [OF r1] by blast
    obtain d2 where d2: "spec_divisor_table (sensitivity_level s2') = Some d2" "5 \<le> d2"
      "report_dx r2 = sint (fst (read_joystick (adc_x e2) (adc_y e2) (gpio_pin e2))) sdiv d2"
      "report_dy r2 = sint (fst (snd (read_joystick (adc_x e2) (adc_y e2) (gpio_pin e2))))
                       sdiv (if sensitivity_level s2' = 1 \<or> sensitivity_level s2' = 2
                             then d2 * 4 else d2)"
      using joystick_path_Inr_motion [OF r2] by blast
    have dd: "d1 = d2" using d1(1) d2(1) eq by simp
    have px: "\<bar>report_dx r1\<bar> \<le> \<bar>report_dx r2\<bar>" if "adc_x e1 = v" "adc_x e2 = w"
      unfolding d1(3) d2(3) dd that using d2(2) by (intro abs_sdiv_mono X) simp
    have py: "\<bar>report_dy r1\<bar> \<le> \<bar>report_dy r2\<bar>" if "adc_y e1 = v" "adc_y e2 = w"
      unfolding d1(4) d2(4) dd that eq using d2(2) by (intro abs_sdiv_mono Y) simp
    show ?thesis using px py by blast
  qed
  show ?thesis using X Y D by blast
qed

theorem axis_monotonic_witness:
  "((2148 < uint (3000 :: uint16_t) \<and> uint (3000 :: uint16_t) \<le> uint (4095 :: uint16_t)
      \<and> uint (4095 :: uint16_t) \<le> 4095)
    \<or> (uint (4095 :: uint16_t) \<le> uint (3000 :: uint16_t) \<and> uint (3000 :: uint16_t) < 1948))
   \<and> \<bar>sint (fst (read_joystick 3000 0 True))\<bar> \<le> \<bar>sint (fst (read_joystick 4095 0 True))\<bar>
   \<and> sint (fst (read_joystick 3000 0 True)) = 55
   \<and> sint (fst (read_joystick 4095 0 True)) = 127
   \<and> joystick_path 600
        \<lparr>millis_gate = 600, hid_ready = True, rand_first = 0, rand_second = 0,
          millis_now = 600, adc_x = 3000, adc_y = 2048, gpio_pin = True\<rparr> init_state
       = Inr (init_state, Some (Mouse_report 0 5 0 0 0))
   \<and> joystick_path 600
        \<lparr>millis_gate = 600, hid_ready = True, rand_first = 0, rand_second = 0,
          millis_now = 600, adc_x = 4095, adc_y = 2048, gpio_pin = True\<rparr> init_state
       = Inr (init_state, Some (Mouse_report 0 12 0 0 0))
   \<and> \<bar>report_dx (Some (Mouse_report 0 5 0 0 0))\<bar> \<le> \<bar>report_dx (Some (Mouse_report 0 12 0 0 0))\<bar>"
proof -
  have h: "(2148 < uint (3000 :: uint16_t) \<and> uint (3000 :: uint16_t) \<le> uint (4095 :: uint16_t)
      \<and> uint (4095 :: uint16_t) \<le> 4095)
    \<or> (uint (4095 :: uint16_t) \<le> uint (3000 :: uint16_t) \<and> uint (3000 :: uint16_t) < 1948)"
    by simp
  have a: "read_joystick 3000 0 True = (55, - 127, 0)"
    by (simp add: read_joystick_def center_def deadzone_def signed_divide_int_def)
  have b: "read_joystick 4095 0 True = (127, - 127, 0)"
    by (simp add: read_joystick_def center_def deadzone_def signed_divide_int_def)
  have j1: "joystick_path 600
        \<lparr>millis_gate = 600, hid_ready = True, rand_first = 0, rand_second = 0,
          millis_now = 600, adc_x = 3000, adc_y = 2048, gpio_pin = True\<rparr> init_state
       = Inr (init_state, Some (Mouse_report 0 5 0 0 0))"
    by (simp add: joystick_path_def read_joystick_def divisor_at_def sensitivity_divisors_def
        init_state_def center_def deadzone_def Let_def signed_divide_int_def)
  have j2: "joystick_path 600
        \<lparr>millis_gate = 600, hid_ready = True, rand_first = 0, rand_second = 0,
          millis_now = 600, adc_x = 4095, adc_y = 2048, gpio_pin = True\<rparr> init_state
       = Inr (init_state, Some (Mouse_report 0 12 0 0 0))"
    by (simp add: joystick_path_def read_joystick_def divisor_at_def sensitivity_divisors_def
        init_state_def center_def deadzone_def Let_def signed_divide_int_def)
  note m = axis_monotonic [OF h, where ?y1.0 = 0 and ?y2.0 = 0 and ?p1.0 = True and ?p2.0 = True
      and ?t1.0 = 600 and ?t2.0 = 600 and ?s1.0 = init_state and ?s2.0 = init_state
      and ?s1' = init_state and ?s2' = init_state
      and ?e1.0 = "\<lparr>millis_gate = 600, hid_ready = True, rand_first = 0, rand_second = 0,
          millis_now = 600, adc_x = 3000, adc_y = 2048, gpio_pin = True\<rparr>"
      and ?e2.0 = "\<lparr>millis_gate = 600, hid_ready = True, rand_first = 0, rand_second = 0,
          millis_now = 600, adc_x = 4095, adc_y = 2048, gpio_pin = True\<rparr>"
      and ?r1.0 = "Some (Mouse_report 0 5 0 0 0)" and ?r2.0 = "Some (Mouse_report 0 12 0 0 0)"]
  have x: "\<bar>sint (fst (read_joystick 3000 0 True))\<bar> \<le> \<bar>sint (fst (read_joystick 4095 0 True))\<bar>"
    using m by blast
  have d: "\<bar>report_dx (Some (Mouse_report 0 5 0 0 0))\<bar> \<le> \<bar>report_dx (Some (Mouse_report 0 12 0 0 0))\<bar>"
    using m j1 j2 by simp
  show ?thesis using h x d a b j1 j2 by simp
qed

subsection \<open>The branches of \<^verbatim>\<open>hid_task\<close>\<close>

lemma hid_task_gate:
  "millis_gate env - hid_start_ms st < 1 \<Longrightarrow> hid_task env st = Inr (st, None)"
  by (simp add: hid_task_def)

lemma hid_task_not_ready:
  "\<not> millis_gate env - hid_start_ms st < 1 \<Longrightarrow> \<not> hid_ready env \<Longrightarrow>
   hid_task env st = Inr (st\<lparr>hid_start_ms := hid_start_ms st + 1\<rparr>, None)"
  by (simp add: hid_task_def)

lemma hid_task_command:
  "\<not> millis_gate env - hid_start_ms st < 1 \<Longrightarrow> hid_ready env \<Longrightarrow> cmd_has_data (mouse_cmd st) \<Longrightarrow>
   hid_task env st =
     Inr (st\<lparr>hid_start_ms := hid_start_ms st + 1,
             mouse_cmd := (mouse_cmd st)\<lparr>cmd_has_data := False\<rparr>\<rparr>,
          Some (Mouse_report
                  (cmd_buttons (mouse_cmd st))
                  (word_of_int (sint (cmd_x (mouse_cmd st))
                                + sint (jitter (rand_first env) (cmd_x (mouse_cmd st)))))
                  (word_of_int (sint (cmd_y (mouse_cmd st))
                                + sint (jitter (rand_second env) (cmd_y (mouse_cmd st)))))
                  (cmd_wheel (mouse_cmd st))
                  (cmd_pan (mouse_cmd st))))"
  by (simp add: hid_task_def Let_def)

lemma hid_task_blocked:
  "\<not> millis_gate env - hid_start_ms st < 1 \<Longrightarrow> hid_ready env \<Longrightarrow> \<not> cmd_has_data (mouse_cmd st) \<Longrightarrow>
   millis_now env - cdc_command_time st < 500 \<Longrightarrow>
   hid_task env st = Inr (st\<lparr>hid_start_ms := hid_start_ms st + 1\<rparr>, None)"
  by (simp add: hid_task_def Let_def CDC_BLOCK_TIMEOUT_def)

lemma hid_task_joystick:
  "\<not> millis_gate env - hid_start_ms st < 1 \<Longrightarrow> hid_ready env \<Longrightarrow> \<not> cmd_has_data (mouse_cmd st) \<Longrightarrow>
   \<not> millis_now env - cdc_command_time st < 500 \<Longrightarrow>
   hid_task env st = joystick_path (millis_now env) env (st\<lparr>hid_start_ms := hid_start_ms st + 1\<rparr>)"
  by (simp add: hid_task_def Let_def CDC_BLOCK_TIMEOUT_def)

text \<open>Whether a call of \<^verbatim>\<open>hid_task\<close> reaches the joystick path.\<close>

lemma hid_task_cases:
  assumes "hid_task env st = Inr (st', rep)"
  shows "(st' = st \<and> rep = None)
       \<or> (st' = st\<lparr>hid_start_ms := hid_start_ms st + 1\<rparr> \<and> rep = None)
       \<or> (cmd_has_data (mouse_cmd st)
          \<and> st' = st\<lparr>hid_start_ms := hid_start_ms st + 1,
                     mouse_cmd := (mouse_cmd st)\<lparr>cmd_has_data := False\<rparr>\<rparr>)
       \<or> (\<not> millis_gate env - hid_start_ms st < 1 \<and> hid_ready env \<and> \<not> cmd_has_data (mouse_cmd st)
          \<and> \<not> millis_now env - cdc_command_time st < 500
          \<and> st' = sens_update (millis_now env) (pressed env) (st\<lparr>hid_start_ms := hid_start_ms st + 1\<rparr>))"
proof (cases "millis_gate env - hid_start_ms st < 1")
  case True
  then show ?thesis using assms by (simp add: hid_task_gate)
next
  case gate: False
  show ?thesis
  proof (cases "hid_ready env")
    case False
    then show ?thesis using assms gate by (simp add: hid_task_not_ready)
  next
    case ready: True
    show ?thesis
    proof (cases "cmd_has_data (mouse_cmd st)")
      case True
      then show ?thesis using assms gate ready by (simp add: hid_task_command)
    next
      case nodata: False
      show ?thesis
      proof (cases "millis_now env - cdc_command_time st < 500")
        case True
        then show ?thesis using assms gate ready nodata by (simp add: hid_task_blocked)
      next
        case False
        then have "joystick_path (millis_now env) env (st\<lparr>hid_start_ms := hid_start_ms st + 1\<rparr>)
                     = Inr (st', rep)"
          using assms gate ready nodata by (simp add: hid_task_joystick)
        from joystick_path_Inr_level [OF this] show ?thesis
          using gate ready nodata False by simp
      qed
    qed
  qed
qed

subsection \<open>What the long-press handling changes\<close>

lemma sens_update_others [simp]:
  "mouse_cmd (sens_update t b st) = mouse_cmd st"
  "cdc_command_time (sens_update t b st) = cdc_command_time st"
  "hid_start_ms (sens_update t b st) = hid_start_ms st"
  "last_button_state (sens_update t b st) = b"
  by (simp_all add: sens_update_def)

lemma sens_update_edge:
  "b \<noteq> 0 \<Longrightarrow> last_button_state st = 0 \<Longrightarrow>
   sens_update t b st = st\<lparr>button_press_start_time := t, sensitivity_changed := False,
                           last_button_state := b\<rparr>"
  by (simp add: sens_update_def)

lemma sens_update_advance:
  assumes "b \<noteq> 0" "last_button_state st \<noteq> 0" "\<not> sensitivity_changed st"
    "1000 \<le> t - button_press_start_time st" "sensitivity_level st \<in> {1, 2, 3}"
  shows "sensitivity_level (sens_update t b st)
           = (if sensitivity_level st = 3 then 1 else sensitivity_level st + 1)
       \<and> sensitivity_changed (sens_update t b st)
       \<and> sensitivity_level (sens_update t b st) \<noteq> sensitivity_level st"
  using assms by (auto simp: sens_update_def BUTTON_PRESS_TIMEOUT_def)

lemma sens_update_level_change:
  assumes "sensitivity_level (sens_update t b st) \<noteq> sensitivity_level st"
  shows "b \<noteq> 0 \<and> last_button_state st \<noteq> 0 \<and> \<not> sensitivity_changed st
       \<and> 1000 \<le> t - button_press_start_time st \<and> sensitivity_changed (sens_update t b st)"
  using assms by (auto simp: sens_update_def BUTTON_PRESS_TIMEOUT_def split: if_splits)

lemma sens_update_done:
  "b \<noteq> 0 \<Longrightarrow> last_button_state st \<noteq> 0 \<Longrightarrow> sensitivity_changed st \<Longrightarrow>
   sensitivity_changed (sens_update t b st) \<and> sensitivity_level (sens_update t b st) = sensitivity_level st"
  by (simp add: sens_update_def)

lemma pressed_nonzero: "pressed env \<noteq> 0 \<longleftrightarrow> \<not> gpio_pin env"
  by (simp add: pressed_def)

subsection \<open>The rounding of the \<^verbatim>\<open>double\<close> operations\<close>






















subsection \<open>The scanner on well-formed tokens\<close>

lemma isspace_not_digit: "isspace_c c \<Longrightarrow> \<not> isdigit_c c"
  by (auto simp: isspace_c_def isdigit_c_def)

lemma tokens_Cons:
  assumes "tokens s = t # ts"
  shows "\<exists>c cs. dropWhile isspace_c s = c # cs
               \<and> t = c # takeWhile (\<lambda>x. \<not> isspace_c x) cs
               \<and> ts = tokens (dropWhile (\<lambda>x. \<not> isspace_c x) cs)"
  using assms by (subst (asm) tokens.simps) (auto split: list.splits)

lemma digits_then_rest:
  assumes "list_all isdigit_c ds" and "rest = [] \<or> isspace_c (hd rest)"
  shows "takeWhile isdigit_c (ds @ rest) = ds \<and> dropWhile isdigit_c (ds @ rest) = rest"
proof -
  have r: "takeWhile isdigit_c rest = [] \<and> dropWhile isdigit_c rest = rest"
    using assms(2) by (cases rest) (auto simp: isspace_not_digit)
  have "\<And>x. x \<in> set ds \<Longrightarrow> isdigit_c x"
    using assms(1) by (simp add: list_all_iff)
  then show ?thesis
    using r by simp
qed

lemma scan_d_token:
  assumes "tokens s = t # ts" and "is_int_token t"
  shows "\<exists>rest. scan_d s = Some (token_val t, rest) \<and> tokens rest = ts"
proof -
  obtain c cs where s1: "dropWhile isspace_c s = c # cs"
    and t: "t = c # takeWhile (\<lambda>x. \<not> isspace_c x) cs"
    and ts: "ts = tokens (dropWhile (\<lambda>x. \<not> isspace_c x) cs)"
    using tokens_Cons [OF assms(1)] by blast
  define body where "body = takeWhile (\<lambda>x. \<not> isspace_c x) cs"
  define rest where "rest = dropWhile (\<lambda>x. \<not> isspace_c x) cs"
  have cs: "cs = body @ rest" by (simp add: body_def rest_def)
  have rest: "rest = [] \<or> isspace_c (hd rest)"
    unfolding rest_def using hd_dropWhile [of "\<lambda>x. \<not> isspace_c x" cs] by auto
  show ?thesis
  proof (cases "c = CHR ''-'' \<or> c = CHR ''+''")
    case True
    then have ds: "body \<noteq> []" "list_all isdigit_c body"
      using assms(2) by (auto simp: is_int_token_def Let_def t body_def)
    have "scan_d s = Some (if c = CHR ''-'' then - dec_val body else dec_val body, rest)"
      using True ds digits_then_rest [OF ds(2) rest]
      by (auto simp: scan_d_def s1 Let_def cs)
    moreover have "token_val t = (if c = CHR ''-'' then - dec_val body else dec_val body)"
      using True by (auto simp: token_val_def t body_def)
    ultimately show ?thesis using ts by (simp add: rest_def)
  next
    case False
    then have ds: "list_all isdigit_c (c # body)"
      using assms(2) by (auto simp: is_int_token_def Let_def t body_def)
    have "scan_d s = Some (dec_val (c # body), rest)"
      using False digits_then_rest [OF ds rest]
      by (auto simp: scan_d_def s1 Let_def cs)
    moreover have "token_val t = dec_val (c # body)"
      using False by (auto simp: token_val_def t body_def)
    ultimately show ?thesis using ts by (simp add: rest_def)
  qed
qed

lemma sscanf_d_tokens:
  "tokens s = ts \<Longrightarrow> n \<le> length ts \<Longrightarrow> list_all is_int_token (take n ts) \<Longrightarrow>
   sscanf_d ovf n s = map (\<lambda>t. store_int ovf (token_val t)) (take n ts)"
proof (induction n arbitrary: s ts)
  case 0
  then show ?case by simp
next
  case (Suc n)
  then obtain t ts' where ts: "ts = t # ts'" by (cases ts) auto
  then have t: "is_int_token t" and rest: "list_all is_int_token (take n ts')"
    using Suc.prems(3) by simp_all
  obtain r where r: "scan_d s = Some (token_val t, r)" "tokens r = ts'"
    using scan_d_token [of s t ts'] Suc.prems(1) ts t by blast
  have "sscanf_d ovf n r = map (\<lambda>t. store_int ovf (token_val t)) (take n ts')"
    using r(2) Suc.prems(2) rest ts by (intro Suc.IH) simp_all
  then show ?case by (simp add: r(1) ts)
qed

lemma store_int_in_range:
  "- 2147483648 \<le> v \<Longrightarrow> v \<le> 2147483647 \<Longrightarrow> store_int ovf v = word_of_int v"
  by (simp add: store_int_def)

lemma length_sscanf_d: "length (sscanf_d ovf n s) \<le> n"
  by (induction n arbitrary: s) (auto split: option.splits)

subsection \<open>The answers of \<^verbatim>\<open>cdc_task\<close>\<close>

lemma acks_distinct:
  "ack_ok \<noteq> ack_protocol_error" "ack_ok \<noteq> ack_format_error"
  "ack_protocol_error \<noteq> ack_format_error"
  by (simp_all add: ack_ok_def ack_protocol_error_def ack_format_error_def)

lemma seven_elements:
  "length xs = 7 \<Longrightarrow> \<exists>a b c d e f g. xs = [a, b, c, d, e, f, g]"
  by (auto simp: eval_nat_numeral length_Suc_conv)

lemma cdc_task_empty: "cdc_task ovf [] millis st = (st, None)"
  by (simp add: cdc_task_def)

lemma cdc_task_seven:
  assumes "rx \<noteq> []" and "sscanf_d ovf 7 (c_str (take 63 rx)) = [h, b, x, y, w, p, c]"
  shows "cdc_task ovf rx millis st =
           (if h = 55 \<and> b + x + y + w + p = c
            then (st\<lparr>mouse_cmd := stored_cmd b x y w p, cdc_command_time := millis\<rparr>, Some ack_ok)
            else (st, Some ack_protocol_error))"
  using assms by (simp add: cdc_task_def Let_def stored_cmd_def)

lemma cdc_task_short:
  assumes "rx \<noteq> []" and "length (sscanf_d ovf 7 (c_str (take 63 rx))) \<noteq> 7"
  shows "cdc_task ovf rx millis st = (st, Some ack_format_error)"
  using assms by (auto simp: cdc_task_def Let_def split: list.splits)

lemma cdc_task_cases:
  "cdc_task ovf rx millis st = (st, None)
   \<or> cdc_task ovf rx millis st = (st, Some ack_format_error)
   \<or> cdc_task ovf rx millis st = (st, Some ack_protocol_error)
   \<or> (\<exists>b x y w p. cdc_task ovf rx millis st =
         (st\<lparr>mouse_cmd := stored_cmd b x y w p, cdc_command_time := millis\<rparr>, Some ack_ok))"
proof (cases "rx = []")
  case True
  then show ?thesis by (simp add: cdc_task_empty)
next
  case ne: False
  show ?thesis
  proof (cases "length (sscanf_d ovf 7 (c_str (take 63 rx))) = 7")
    case True
    then obtain h b x y w p c where "sscanf_d ovf 7 (c_str (take 63 rx)) = [h, b, x, y, w, p, c]"
      using seven_elements by blast
    note seven = cdc_task_seven [OF ne this, where millis = millis and st = st]
    show ?thesis
    proof (cases "h = 55 \<and> b + x + y + w + p = c")
      case True
      with seven have "cdc_task ovf rx millis st =
          (st\<lparr>mouse_cmd := stored_cmd b x y w p, cdc_command_time := millis\<rparr>, Some ack_ok)"
        by simp
      then show ?thesis by blast
    next
      case False
      with seven have "cdc_task ovf rx millis st = (st, Some ack_protocol_error)"
        by auto
      then show ?thesis by simp
    qed
  next
    case False
    from cdc_task_short [OF ne this] show ?thesis by simp
  qed
qed

lemma cdc_task_rejected:
  assumes "snd (cdc_task ovf rx millis st) \<noteq> Some ack_ok"
  shows "fst (cdc_task ovf rx millis st) = st"
  using cdc_task_cases [of ovf rx millis st] assms by auto


lemma ucast_int_to_8: "(ucast (word_of_int v :: c_int) :: 8 word) = word_of_int v"
  by (simp add: unsigned_of_int word_of_int_eq_iff)

lemma uint_word8: "uint (word_of_int v :: uint8_t) = v mod 256"
  by (simp add: uint_word_of_int)

lemma sint_word8: "sint (word_of_int v :: int8_t) = (v + 128) mod 256 - 128"
  by (simp add: sint_sbintrunc' signed_take_bit_eq_take_bit_shift take_bit_eq_mod)

lemma scan_example_ok:
  "sscanf_d ovf 7 (c_str (take 63 ''55 1 10 -5 0 0 6'')) = [55, 1, 10, - 5, 0, 0, 6]"
  by code_simp

lemma scan_example_bad_sum:
  "sscanf_d ovf 7 (c_str (take 63 ''55 1 10 -5 0 0 7'')) = [55, 1, 10, - 5, 0, 0, 7]"
  by code_simp

lemma scan_example_trailing:
  "sscanf_d ovf 7 (c_str (take 63 ''55 1 10 -5 0 0 6 0'')) = [55, 1, 10, - 5, 0, 0, 6]"
  by code_simp

lemma tokens_example_bad_sum:
  "tokens (c_str (take 63 ''55 1 10 -5 0 0 7'')) = [''55'', ''1'', ''10'', ''-5'', ''0'', ''0'', ''7'']"
  by code_simp

lemma tokens_example_trailing:
  "length (tokens (c_str (take 63 ''55 1 10 -5 0 0 6 0''))) = 8"
  by code_simp

lemma token_vals_example:
  "token_val ''55'' = 55" "token_val ''1'' = 1" "token_val ''10'' = 10" "token_val ''-5'' = - 5"
  "token_val ''0'' = 0" "token_val ''6'' = 6" "token_val ''7'' = 7"
  by code_simp+

lemma int_tokens_example:
  "list_all is_int_token [''55'', ''1'', ''10'', ''-5'', ''0'', ''0'', ''7'']"
  by code_simp

lemma cdc_task_example_ok:
  "cdc_task ovf ''55 1 10 -5 0 0 6'' millis st =
     (st\<lparr>mouse_cmd := \<lparr>cmd_buttons = 1, cmd_x = 10, cmd_y = - 5, cmd_wheel = 0, cmd_pan = 0,
                        cmd_has_data = True\<rparr>,
         cdc_command_time := millis\<rparr>, Some ack_ok)"
proof -
  have u: "(ucast (- 5 :: c_int) :: int8_t) = - 5"
    using ucast_int_to_8 [of "- 5"] by simp
  show ?thesis
    using cdc_task_seven [OF _ scan_example_ok, where millis = millis and st = st] u
    by (simp add: stored_cmd_def)
qed

lemma cdc_task_example_bad_sum:
  "cdc_task ovf ''55 1 10 -5 0 0 7'' millis st = (st, Some ack_protocol_error)"
  using cdc_task_seven [OF _ scan_example_bad_sum, where millis = millis and st = st] by simp

lemma cdc_task_example_trailing:
  "snd (cdc_task ovf ''55 1 10 -5 0 0 6 0'' millis st) = Some ack_ok"
  using cdc_task_seven [OF _ scan_example_trailing, where millis = millis and st = st] by simp

lemma hid_task_keeps_time:
  assumes "hid_task env st = Inr (st', rep)"
  shows "cdc_command_time st' = cdc_command_time st"
  using hid_task_cases [OF assms] by auto

text \<open>
  Claim C1. Let the text read into the buffer, up to its first NUL, be made of
  exactly seven white-space separated decimal integers
  \<open>head btn dx dy wheel pan checksum\<close>, each within the range of \<^verbatim>\<open>int\<close>, with
  \<open>head = 55\<close> and \<open>checksum = btn + dx + dy + wheel + pan\<close>. Then it is accepted: the
  acknowledgement is \<^verbatim>\<open>ok\<close>, and the command stored has \<open>btn\<close> reduced modulo 256 as
  its buttons and \<open>dx\<close>, \<open>dy\<close>, \<open>wheel\<close>, \<open>pan\<close> reduced to the signed range of eight
  bits as its other fields, and is marked pending. The line \<^verbatim>\<open>55 1 10 -5 0 0 6\<close>
  stores buttons 1, dx 10, dy \<open>-5\<close>, wheel 0 and pan 0.
\<close>

theorem valid_line_accepted:
  assumes "tokens (c_str (take 63 rx)) = [t_head, t_btn, t_dx, t_dy, t_wheel, t_pan, t_sum]"
    and "list_all is_int_token [t_head, t_btn, t_dx, t_dy, t_wheel, t_pan, t_sum]"
    and "list_all (\<lambda>t. - 2147483648 \<le> token_val t \<and> token_val t \<le> 2147483647)
           [t_head, t_btn, t_dx, t_dy, t_wheel, t_pan, t_sum]"
    and "token_val t_head = 55"
    and "token_val t_sum
           = token_val t_btn + token_val t_dx + token_val t_dy + token_val t_wheel + token_val t_pan"
  shows "cdc_task ovf rx millis st =
           (st\<lparr>mouse_cmd :=
                 \<lparr>cmd_buttons = word_of_int (token_val t_btn),
                  cmd_x = word_of_int (token_val t_dx),
                  cmd_y = word_of_int (token_val t_dy),
                  cmd_wheel = word_of_int (token_val t_wheel),
                  cmd_pan = word_of_int (token_val t_pan),
                  cmd_has_data = True\<rparr>,
               cdc_command_time := millis\<rparr>,
            Some ack_ok)
       \<and> uint (word_of_int (token_val t_btn) :: uint8_t) = token_val t_btn mod 256
       \<and> sint (word_of_int (token_val t_dx) :: int8_t) = (token_val t_dx + 128) mod 256 - 128
       \<and> sint (word_of_int (token_val t_dy) :: int8_t) = (token_val t_dy + 128) mod 256 - 128
       \<and> sint (word_of_int (token_val t_wheel) :: int8_t) = (token_val t_wheel + 128) mod 256 - 128
       \<and> sint (word_of_int (token_val t_pan) :: int8_t) = (token_val t_pan + 128) mod 256 - 128
       \<and> cdc_task ovf ''55 1 10 -5 0 0 6'' millis st =
           (st\<lparr>mouse_cmd := \<lparr>cmd_buttons = 1, cmd_x = 10, cmd_y = - 5, cmd_wheel = 0,
                              cmd_pan = 0, cmd_has_data = True\<rparr>,
               cdc_command_time := millis\<rparr>, Some ack_ok)"
proof -
  have ne: "rx \<noteq> []"
    using assms(1) by (auto simp: c_str_def tokens.simps)
  have "sscanf_d ovf 7 (c_str (take 63 rx))
          = map (\<lambda>t. store_int ovf (token_val t))
              (take 7 [t_head, t_btn, t_dx, t_dy, t_wheel, t_pan, t_sum])"
    using assms(1,2) by (intro sscanf_d_tokens) simp_all
  then have scan: "sscanf_d ovf 7 (c_str (take 63 rx))
          = [word_of_int (token_val t_head), word_of_int (token_val t_btn),
             word_of_int (token_val t_dx), word_of_int (token_val t_dy),
             word_of_int (token_val t_wheel), word_of_int (token_val t_pan),
             word_of_int (token_val t_sum)]"
    using assms(3) by (simp add: store_int_in_range)
  have "cdc_task ovf rx millis st =
           (st\<lparr>mouse_cmd := stored_cmd (word_of_int (token_val t_btn)) (word_of_int (token_val t_dx))
                                (word_of_int (token_val t_dy)) (word_of_int (token_val t_wheel))
                                (word_of_int (token_val t_pan)),
               cdc_command_time := millis\<rparr>, Some ack_ok)"
    using cdc_task_seven [OF ne scan, where millis = millis and st = st] assms(4,5) by simp
  then show ?thesis
    by (simp add: stored_cmd_def ucast_int_to_8 uint_word8 sint_word8 cdc_task_example_ok)
qed

theorem valid_line_accepted_witness:
  "cdc_task ovf_saturate ''55 257 10 -5 0 0 262'' 1234 init_state =
     (init_state\<lparr>mouse_cmd := \<lparr>cmd_buttons = 1, cmd_x = 10, cmd_y = - 5, cmd_wheel = 0,
                                cmd_pan = 0, cmd_has_data = True\<rparr>,
                 cdc_command_time := 1234\<rparr>, Some ack_ok)"
proof -
  have h2: "tokens (c_str (take 63 ''55 257 10 -5 0 0 262''))
              = [''55'', ''257'', ''10'', ''-5'', ''0'', ''0'', ''262'']"
    by code_simp
  have h3: "list_all is_int_token [''55'', ''257'', ''10'', ''-5'', ''0'', ''0'', ''262'']"
    by code_simp
  have v: "token_val ''257'' = 257" "token_val ''262'' = 262"
    by code_simp+
  have h4: "list_all (\<lambda>t. - 2147483648 \<le> token_val t \<and> token_val t \<le> 2147483647)
              [''55'', ''257'', ''10'', ''-5'', ''0'', ''0'', ''262'']"
    by (simp add: token_vals_example v)
  have h5: "token_val ''55'' = 55" by (rule token_vals_example)
  have h6: "token_val ''262''
              = token_val ''257'' + token_val ''10'' + token_val ''-5'' + token_val ''0'' + token_val ''0''"
    by (simp add: token_vals_example v)
  show ?thesis
    using valid_line_accepted [OF h2 h3 h4 h5 h6, where ovf = ovf_saturate and millis = 1234 and st = init_state]
    by (simp add: token_vals_example v)
qed

subsection \<open>The scanner and the integers a line begins with\<close>

lemma digits_then_nondigit:
  assumes "list_all isdigit_c ds" and "rest = [] \<or> \<not> isdigit_c (hd rest)"
  shows "takeWhile isdigit_c (ds @ rest) = ds \<and> dropWhile isdigit_c (ds @ rest) = rest"
proof -
  have r: "takeWhile isdigit_c rest = [] \<and> dropWhile isdigit_c rest = rest"
    using assms(2) by (cases rest) auto
  have "\<And>x. x \<in> set ds \<Longrightarrow> isdigit_c x"
    using assms(1) by (simp add: list_all_iff)
  then show ?thesis
    using r by simp
qed

lemma sign_not_digit: "\<not> isdigit_c (CHR ''-'')" "\<not> isdigit_c (CHR ''+'')"
  by (simp_all add: isdigit_c_def)

lemma scan_d_literal:
  assumes "is_int_token lit" and "dropWhile isspace_c s = lit @ rest"
    and "rest = [] \<or> \<not> isdigit_c (hd rest)"
  shows "scan_d s = Some (token_val lit, rest)"
proof -
  obtain c body where lit: "lit = c # body"
    using assms(1) by (cases lit) (auto simp: is_int_token_def)
  show ?thesis
  proof (cases "c = CHR ''-'' \<or> c = CHR ''+''")
    case True
    then have ds: "body \<noteq> []" "list_all isdigit_c body"
      using assms(1) by (auto simp: is_int_token_def Let_def lit)
    have "scan_d s = Some (if c = CHR ''-'' then - dec_val body else dec_val body, rest)"
      using True ds digits_then_nondigit [OF ds(2) assms(3)]
      by (auto simp: scan_d_def assms(2) Let_def lit)
    moreover have "token_val lit = (if c = CHR ''-'' then - dec_val body else dec_val body)"
      using True by (auto simp: token_val_def lit)
    ultimately show ?thesis by simp
  next
    case False
    then have ds: "list_all isdigit_c (c # body)"
      using assms(1) by (auto simp: is_int_token_def Let_def lit)
    have "scan_d s = Some (dec_val (c # body), rest)"
      using False digits_then_nondigit [OF ds assms(3)]
      by (auto simp: scan_d_def assms(2) Let_def lit)
    moreover have "token_val lit = dec_val (c # body)"
      using False by (auto simp: token_val_def lit)
    ultimately show ?thesis by simp
  qed
qed

lemma scan_d_literal_ex:
  assumes "scan_d s = Some (v, rest)"
  shows "\<exists>lit. is_int_token lit \<and> dropWhile isspace_c s = lit @ rest
             \<and> (rest = [] \<or> \<not> isdigit_c (hd rest)) \<and> v = token_val lit"
proof -
  define s1 where "s1 = dropWhile isspace_c s"
  define s2 where "s2 = (if s1 \<noteq> [] \<and> (hd s1 = CHR ''-'' \<or> hd s1 = CHR ''+'') then tl s1 else s1)"
  define ds where "ds = takeWhile isdigit_c s2"
  have ne: "ds \<noteq> []" and v: "v = (if s1 \<noteq> [] \<and> hd s1 = CHR ''-'' then - dec_val ds else dec_val ds)"
    and rest: "rest = dropWhile isdigit_c s2"
    using assms unfolding scan_d_def Let_def s1_def [symmetric] s2_def [symmetric] ds_def [symmetric]
    by (auto split: if_splits)
  have s2: "s2 = ds @ rest" by (simp add: ds_def rest)
  have dig: "list_all isdigit_c ds"
    unfolding ds_def list_all_iff using set_takeWhileD by fastforce
  have hdds: "isdigit_c (hd ds)" using ne dig by (cases ds) auto
  have r: "rest = [] \<or> \<not> isdigit_c (hd rest)"
    unfolding rest using hd_dropWhile [of isdigit_c s2] by auto
  show ?thesis
  proof (cases "s1 \<noteq> [] \<and> (hd s1 = CHR ''-'' \<or> hd s1 = CHR ''+'')")
    case True
    then have s1: "s1 = hd s1 # ds @ rest"
      using s2 by (cases s1) (auto simp: s2_def)
    have "is_int_token (hd s1 # ds)"
      using True ne dig by (auto simp: is_int_token_def)
    moreover have "v = token_val (hd s1 # ds)"
      using True v by (auto simp: token_val_def)
    ultimately have "is_int_token (hd s1 # ds) \<and> dropWhile isspace_c s = (hd s1 # ds) @ rest
             \<and> (rest = [] \<or> \<not> isdigit_c (hd rest)) \<and> v = token_val (hd s1 # ds)"
      using s1 r by (simp add: s1_def [symmetric])
    then show ?thesis by blast
  next
    case False
    then have "s2 = s1" unfolding s2_def by (simp only: if_False)
    then have s1: "s1 = ds @ rest" using s2 by simp
    have nosign: "hd ds \<noteq> CHR ''-''" "hd ds \<noteq> CHR ''+''"
      using hdds sign_not_digit by auto
    have hd1: "hd s1 = hd ds" using s1 ne by simp
    have "is_int_token ds"
      using ne dig nosign by (auto simp: is_int_token_def)
    moreover have "v = token_val ds"
      using v nosign ne hd1 by (auto simp: token_val_def)
    ultimately have "is_int_token ds \<and> dropWhile isspace_c s = ds @ rest
             \<and> (rest = [] \<or> \<not> isdigit_c (hd rest)) \<and> v = token_val ds"
      using s1 r by (simp add: s1_def [symmetric])
    then show ?thesis by blast
  qed
qed

lemma leading_ints_Cons:
  "leading_ints s (lit # lits) \<longleftrightarrow>
     (\<exists>rest. is_int_token lit \<and> dropWhile isspace_c s = lit @ rest
           \<and> (rest = [] \<or> \<not> isdigit_c (hd rest)) \<and> leading_ints rest lits)"
proof
  assume l: "leading_ints s (lit # lits)"
  define rest where "rest = drop (length lit) (dropWhile isspace_c s)"
  have "dropWhile isspace_c s = lit @ rest"
    using l append_take_drop_id [of "length lit" "dropWhile isspace_c s"]
    by (simp add: Let_def rest_def)
  then show "\<exists>rest. is_int_token lit \<and> dropWhile isspace_c s = lit @ rest
           \<and> (rest = [] \<or> \<not> isdigit_c (hd rest)) \<and> leading_ints rest lits"
    using l by (intro exI [of _ rest]) (simp add: Let_def rest_def)
next
  assume "\<exists>rest. is_int_token lit \<and> dropWhile isspace_c s = lit @ rest
           \<and> (rest = [] \<or> \<not> isdigit_c (hd rest)) \<and> leading_ints rest lits"
  then show "leading_ints s (lit # lits)"
    by (auto simp: Let_def)
qed

lemma sscanf_d_leading:
  "leading_ints s lits \<Longrightarrow>
   sscanf_d ovf (length lits) s = map (\<lambda>t. store_int ovf (token_val t)) lits"
proof (induction lits arbitrary: s)
  case Nil
  then show ?case by simp
next
  case (Cons lit lits)
  then obtain rest where r: "is_int_token lit" "dropWhile isspace_c s = lit @ rest"
      "rest = [] \<or> \<not> isdigit_c (hd rest)" "leading_ints rest lits"
    unfolding leading_ints_Cons by blast
  have "scan_d s = Some (token_val lit, rest)"
    using r(1-3) by (rule scan_d_literal)
  then show ?case
    using Cons.IH [OF r(4)] by simp
qed

lemma sscanf_d_leading_ex:
  "length (sscanf_d ovf n s) = n \<Longrightarrow> \<exists>lits. length lits = n \<and> leading_ints s lits"
proof (induction n arbitrary: s)
  case 0
  then show ?case by simp
next
  case (Suc n)
  then obtain v rest where sc: "scan_d s = Some (v, rest)"
    by (cases "scan_d s") auto
  then have "length (sscanf_d ovf n rest) = n"
    using Suc.prems by simp
  then obtain lits where lits: "length lits = n" "leading_ints rest lits"
    using Suc.IH by blast
  obtain lit where lit: "is_int_token lit" "dropWhile isspace_c s = lit @ rest"
      "rest = [] \<or> \<not> isdigit_c (hd rest)"
    using scan_d_literal_ex [OF sc] by blast
  have "leading_ints s (lit # lits)"
    unfolding leading_ints_Cons using lit lits(2) by blast
  then show ?case
    using lits(1) by (intro exI [of _ "lit # lits"]) simp
qed

lemma seven_leading_iff:
  "length (sscanf_d ovf 7 s) = 7 \<longleftrightarrow> (\<exists>lits. length lits = 7 \<and> leading_ints s lits)"
proof
  assume "length (sscanf_d ovf 7 s) = 7"
  then show "\<exists>lits. length lits = 7 \<and> leading_ints s lits"
    by (rule sscanf_d_leading_ex)
next
  assume "\<exists>lits. length lits = 7 \<and> leading_ints s lits"
  then obtain lits where "length lits = 7" "leading_ints s lits" by blast
  then show "length (sscanf_d ovf 7 s) = 7"
    using sscanf_d_leading [of s lits ovf] by simp
qed

lemma tokens_leading:
  "tokens s = ts \<Longrightarrow> n \<le> length ts \<Longrightarrow> list_all is_int_token (take n ts) \<Longrightarrow>
   leading_ints s (take n ts)"
proof (induction n arbitrary: s ts)
  case 0
  then show ?case by simp
next
  case (Suc n)
  then obtain t ts' where ts: "ts = t # ts'" by (cases ts) auto
  then have t: "is_int_token t" and rest: "list_all is_int_token (take n ts')"
    using Suc.prems(3) by simp_all
  obtain c cs where s1: "dropWhile isspace_c s = c # cs"
    and tc: "t = c # takeWhile (\<lambda>x. \<not> isspace_c x) cs"
    and ts': "ts' = tokens (dropWhile (\<lambda>x. \<not> isspace_c x) cs)"
    using tokens_Cons [of s t ts'] Suc.prems(1) ts by blast
  define r where "r = dropWhile (\<lambda>x. \<not> isspace_c x) cs"
  have "r = [] \<or> isspace_c (hd r)"
    unfolding r_def using hd_dropWhile [of "\<lambda>x. \<not> isspace_c x" cs] by auto
  then have nd: "r = [] \<or> \<not> isdigit_c (hd r)"
    using isspace_not_digit by blast
  have dec: "dropWhile isspace_c s = t @ r"
    by (simp add: s1 tc r_def)
  have "leading_ints r (take n ts')"
    using ts' Suc.prems(2) rest ts by (intro Suc.IH) (simp_all add: r_def)
  then have "leading_ints s (t # take n ts')"
    unfolding leading_ints_Cons using t dec nd by blast
  then show ?case by (simp add: ts)
qed

lemma word_of_int_eq_in_range:
  "in_int_range a \<Longrightarrow> in_int_range b \<Longrightarrow> (word_of_int a :: c_int) = word_of_int b \<longleftrightarrow> a = b"
proof -
  assume a: "in_int_range a" and b: "in_int_range b"
  have "sint (word_of_int a :: c_int) = a" "sint (word_of_int b :: c_int) = b"
    using a b by (simp_all add: in_int_range_def sint_sbintrunc' signed_take_bit_int_eq_self)
  then show ?thesis by metis
qed

lemma store_int_in_int_range:
  "in_int_range v \<Longrightarrow> store_int ovf v = word_of_int v"
  by (simp add: store_int_def in_int_range_def)


lemma cdc_task_leading:
  assumes "rx \<noteq> []"
    and "leading_ints (c_str (take 63 rx)) [t_head, t_btn, t_dx, t_dy, t_wheel, t_pan, t_sum]"
    and "list_all (\<lambda>t. in_int_range (token_val t)) [t_head, t_btn, t_dx, t_dy, t_wheel, t_pan, t_sum]"
    and "in_int_range (token_val t_btn + token_val t_dx + token_val t_dy + token_val t_wheel
                        + token_val t_pan)"
  shows "snd (cdc_task ovf rx millis st) =
           (if token_val t_head = 55
               \<and> token_val t_sum = token_val t_btn + token_val t_dx + token_val t_dy
                                    + token_val t_wheel + token_val t_pan
            then Some ack_ok else Some ack_protocol_error)"
proof -
  have len: "length [t_head, t_btn, t_dx, t_dy, t_wheel, t_pan, t_sum] = 7" by simp
  have "sscanf_d ovf 7 (c_str (take 63 rx))
          = map (\<lambda>t. store_int ovf (token_val t)) [t_head, t_btn, t_dx, t_dy, t_wheel, t_pan, t_sum]"
    using sscanf_d_leading [OF assms(2), of ovf] unfolding len .
  then have scan: "sscanf_d ovf 7 (c_str (take 63 rx))
          = [word_of_int (token_val t_head), word_of_int (token_val t_btn),
             word_of_int (token_val t_dx), word_of_int (token_val t_dy),
             word_of_int (token_val t_wheel), word_of_int (token_val t_pan),
             word_of_int (token_val t_sum)]"
    using assms(3) by (simp add: store_int_in_int_range)
  have "in_int_range 55" by (simp add: in_int_range_def)
  then have "(word_of_int (token_val t_head) :: c_int) = word_of_int 55 \<longleftrightarrow> token_val t_head = 55"
    using assms(3) by (intro word_of_int_eq_in_range) simp_all
  then have h: "(word_of_int (token_val t_head) :: c_int) = 55 \<longleftrightarrow> token_val t_head = 55"
    by simp
  have "(word_of_int (token_val t_btn + token_val t_dx + token_val t_dy + token_val t_wheel
                        + token_val t_pan) :: c_int) = word_of_int (token_val t_sum)
          \<longleftrightarrow> token_val t_btn + token_val t_dx + token_val t_dy + token_val t_wheel
                + token_val t_pan = token_val t_sum"
    using assms(3,4) by (intro word_of_int_eq_in_range) simp_all
  then have c: "(word_of_int (token_val t_btn) + word_of_int (token_val t_dx)
            + word_of_int (token_val t_dy) + word_of_int (token_val t_wheel)
            + word_of_int (token_val t_pan) :: c_int) = word_of_int (token_val t_sum)
          \<longleftrightarrow> token_val t_sum = token_val t_btn + token_val t_dx + token_val t_dy
                + token_val t_wheel + token_val t_pan"
    by (simp only: of_int_add) auto
  show ?thesis
    unfolding cdc_task_seven [OF assms(1) scan] using h c by simp
qed

text \<open>
  Claim C7, as amended. Let a non-empty text be received; the line is what of its
  first 63 bytes precedes a NUL. The answer is \<^verbatim>\<open>format error\<close> exactly when the line
  does not begin with seven decimal integers (each after optional white space, each
  an optional sign and digits, taken as far as the digits go). What follows the
  seventh integer is not examined: a line of seven or more white-space separated
  tokens of which the first seven are decimal integers begins with these seven, and
  is never answered \<^verbatim>\<open>format error\<close>, whatever its further tokens are. When the line
  begins with seven integers that are all within the range of \<^verbatim>\<open>int\<close>, and so is the
  sum of the five payload fields, the answer is \<^verbatim>\<open>protocol error\<close> exactly when the
  header is not 55 or the checksum is not that sum, and \<^verbatim>\<open>ok\<close> exactly when the
  header is 55 and the checksum is that sum.
\<close>

theorem parser_answers:
  assumes "rx \<noteq> []"
  shows "(snd (cdc_task ovf rx millis st) = Some ack_format_error
            \<longleftrightarrow> \<not> (\<exists>lits. length lits = 7 \<and> leading_ints (c_str (take 63 rx)) lits))
       \<and> (leading_ints (c_str (take 63 rx)) [t_head, t_btn, t_dx, t_dy, t_wheel, t_pan, t_sum]
            \<and> list_all (\<lambda>t. in_int_range (token_val t))
                 [t_head, t_btn, t_dx, t_dy, t_wheel, t_pan, t_sum]
            \<and> in_int_range (token_val t_btn + token_val t_dx + token_val t_dy + token_val t_wheel
                              + token_val t_pan)
          \<longrightarrow> (snd (cdc_task ovf rx millis st) = Some ack_protocol_error
                  \<longleftrightarrow> token_val t_head \<noteq> 55
                      \<or> token_val t_sum \<noteq> token_val t_btn + token_val t_dx + token_val t_dy
                                           + token_val t_wheel + token_val t_pan)
              \<and> (snd (cdc_task ovf rx millis st) = Some ack_ok
                  \<longleftrightarrow> token_val t_head = 55
                      \<and> token_val t_sum = token_val t_btn + token_val t_dx + token_val t_dy
                                           + token_val t_wheel + token_val t_pan))
       \<and> (7 \<le> length (tokens (c_str (take 63 rx)))
            \<and> list_all is_int_token (take 7 (tokens (c_str (take 63 rx))))
          \<longrightarrow> leading_ints (c_str (take 63 rx)) (take 7 (tokens (c_str (take 63 rx))))
              \<and> snd (cdc_task ovf rx millis st) \<noteq> Some ack_format_error)"
proof -
  define line where "line = c_str (take 63 rx)"
  define vs where "vs = sscanf_d ovf 7 line"
  have seven: "length vs = 7 \<longleftrightarrow> (\<exists>lits. length lits = 7 \<and> leading_ints line lits)"
    unfolding vs_def by (rule seven_leading_iff)
  have fmt: "snd (cdc_task ovf rx millis st) = Some ack_format_error \<longleftrightarrow> length vs \<noteq> 7"
  proof (cases "length vs = 7")
    case True
    then obtain h b x y w p c where vs: "vs = [h, b, x, y, w, p, c]"
      using seven_elements by blast
    have "cdc_task ovf rx millis st =
           (if h = 55 \<and> b + x + y + w + p = c
            then (st\<lparr>mouse_cmd := stored_cmd b x y w p, cdc_command_time := millis\<rparr>, Some ack_ok)
            else (st, Some ack_protocol_error))"
      using vs unfolding vs_def line_def by (rule cdc_task_seven [OF assms])
    then show ?thesis
      using True acks_distinct by auto
  next
    case False
    then have "cdc_task ovf rx millis st = (st, Some ack_format_error)"
      unfolding vs_def line_def by (rule cdc_task_short [OF assms])
    then show ?thesis
      using False by simp
  qed
  have a: "snd (cdc_task ovf rx millis st) = Some ack_format_error
            \<longleftrightarrow> \<not> (\<exists>lits. length lits = 7 \<and> leading_ints line lits)"
    using fmt seven by simp
  have b: "(snd (cdc_task ovf rx millis st) = Some ack_protocol_error
                  \<longleftrightarrow> token_val t_head \<noteq> 55
                      \<or> token_val t_sum \<noteq> token_val t_btn + token_val t_dx + token_val t_dy
                                           + token_val t_wheel + token_val t_pan)
              \<and> (snd (cdc_task ovf rx millis st) = Some ack_ok
                  \<longleftrightarrow> token_val t_head = 55
                      \<and> token_val t_sum = token_val t_btn + token_val t_dx + token_val t_dy
                                           + token_val t_wheel + token_val t_pan)"
    if "leading_ints line [t_head, t_btn, t_dx, t_dy, t_wheel, t_pan, t_sum]"
      and "list_all (\<lambda>t. in_int_range (token_val t))
                 [t_head, t_btn, t_dx, t_dy, t_wheel, t_pan, t_sum]"
      and "in_int_range (token_val t_btn + token_val t_dx + token_val t_dy + token_val t_wheel
                              + token_val t_pan)"
    unfolding cdc_task_leading [OF assms that [unfolded line_def]]
    using acks_distinct by auto
  have c: "leading_ints line (take 7 (tokens line))
              \<and> snd (cdc_task ovf rx millis st) \<noteq> Some ack_format_error"
    if "7 \<le> length (tokens line)" and "list_all is_int_token (take 7 (tokens line))"
  proof -
    have l: "leading_ints line (take 7 (tokens line))"
      using that by (intro tokens_leading) simp_all
    moreover have "length (take 7 (tokens line)) = 7"
      using that(1) by simp
    ultimately have "\<exists>lits. length lits = 7 \<and> leading_ints line lits"
      by blast
    then show ?thesis using a l by simp
  qed
  show ?thesis
    using a b c unfolding line_def by blast
qed

theorem parser_answers_witness:
  "''55 1 10 -5 0 0 7'' \<noteq> []
   \<and> leading_ints (c_str (take 63 ''55 1 10 -5 0 0 7''))
        [''55'', ''1'', ''10'', ''-5'', ''0'', ''0'', ''7'']
   \<and> list_all (\<lambda>t. in_int_range (token_val t)) [''55'', ''1'', ''10'', ''-5'', ''0'', ''0'', ''7'']
   \<and> in_int_range (token_val ''1'' + token_val ''10'' + token_val ''-5'' + token_val ''0''
                     + token_val ''0'')
   \<and> snd (cdc_task ovf_saturate ''55 1 10 -5 0 0 7'' 0 init_state) = Some ack_protocol_error
   \<and> snd (cdc_task ovf_saturate ''55 1 10 -5 0 0 7'' 0 init_state) \<noteq> Some ack_format_error
   \<and> 7 \<le> length (tokens (c_str (take 63 ''55 1 10 -5 0 0 6 0'')))
   \<and> list_all is_int_token (take 7 (tokens (c_str (take 63 ''55 1 10 -5 0 0 6 0''))))
   \<and> snd (cdc_task ovf_saturate ''55 1 10 -5 0 0 6 0'' 0 init_state) \<noteq> Some ack_format_error
   \<and> snd (cdc_task ovf_saturate ''55 1 x'' 0 init_state) = Some ack_format_error
   \<and> \<not> (\<exists>lits. length lits = 7 \<and> leading_ints (c_str (take 63 ''55 1 x'')) lits)"
proof -
  have h: "''55 1 10 -5 0 0 7'' \<noteq> []" "''55 1 10 -5 0 0 6 0'' \<noteq> []" "''55 1 x'' \<noteq> []"
    by simp_all
  have l: "leading_ints (c_str (take 63 ''55 1 10 -5 0 0 7''))
             [''55'', ''1'', ''10'', ''-5'', ''0'', ''0'', ''7'']"
    by code_simp
  have r: "list_all (\<lambda>t. in_int_range (token_val t))
             [''55'', ''1'', ''10'', ''-5'', ''0'', ''0'', ''7'']"
    by (simp add: token_vals_example in_int_range_def)
  have s: "in_int_range (token_val ''1'' + token_val ''10'' + token_val ''-5'' + token_val ''0''
                           + token_val ''0'')"
    by (simp add: token_vals_example in_int_range_def)
  have t: "7 \<le> length (tokens (c_str (take 63 ''55 1 10 -5 0 0 6 0'')))"
    unfolding tokens_example_trailing by simp
  have i: "list_all is_int_token (take 7 (tokens (c_str (take 63 ''55 1 10 -5 0 0 6 0''))))"
    by code_simp
  have "length (sscanf_d ovf_saturate 7 (c_str (take 63 ''55 1 x''))) \<noteq> 7"
    by code_simp
  then have f: "snd (cdc_task ovf_saturate ''55 1 x'' 0 init_state) = Some ack_format_error"
    using cdc_task_short [OF h(3), of ovf_saturate 0 init_state] by simp
  have v: "token_val ''55'' = 55 \<and> token_val ''7'' \<noteq> token_val ''1'' + token_val ''10''
             + token_val ''-5'' + token_val ''0'' + token_val ''0''"
    by (simp add: token_vals_example)
  note bad = parser_answers [OF h(1), where ovf = ovf_saturate and millis = 0 and st = init_state
        and t_head = "''55''" and t_btn = "''1''" and t_dx = "''10''" and t_dy = "''-5''"
        and t_wheel = "''0''" and t_pan = "''0''" and t_sum = "''7''"]
  have p: "snd (cdc_task ovf_saturate ''55 1 10 -5 0 0 7'' 0 init_state) = Some ack_protocol_error"
    using bad l r s v by blast
  have e: "\<exists>lits. length lits = 7 \<and> leading_ints (c_str (take 63 ''55 1 10 -5 0 0 7'')) lits"
  proof (rule exI [of _ "[''55'', ''1'', ''10'', ''-5'', ''0'', ''0'', ''7'']"], rule conjI)
    show "length [''55'', ''1'', ''10'', ''-5'', ''0'', ''0'', ''7''] = 7" by simp
    show "leading_ints (c_str (take 63 ''55 1 10 -5 0 0 7''))
            [''55'', ''1'', ''10'', ''-5'', ''0'', ''0'', ''7'']" by (rule l)
  qed
  have q: "snd (cdc_task ovf_saturate ''55 1 10 -5 0 0 7'' 0 init_state) \<noteq> Some ack_format_error"
    using bad e by blast
  have u: "snd (cdc_task ovf_saturate ''55 1 10 -5 0 0 6 0'' 0 init_state) \<noteq> Some ack_format_error"
    using parser_answers [OF h(2), where ovf = ovf_saturate and millis = 0 and st = init_state] t i
    by blast
  have n: "\<not> (\<exists>lits. length lits = 7 \<and> leading_ints (c_str (take 63 ''55 1 x'')) lits)"
    using parser_answers [OF h(3), where ovf = ovf_saturate and millis = 0 and st = init_state] f
    by blast
  show ?thesis
    using h(1) l r s p q t i u f n by blast
qed

theorem format_error_counterexample:
  "\<not> spec_seven_ints (c_str (take 63 ''55 1 10 -5 0 0 6 0''))
   \<and> snd (cdc_task ovf_saturate ''55 1 10 -5 0 0 6 0'' 0 init_state) = Some ack_ok
   \<and> ack_ok \<noteq> ack_format_error"
  unfolding spec_seven_ints_def tokens_example_trailing
  by (simp add: cdc_task_example_trailing acks_distinct)

text \<open>
  Claim C8. A line answered \<^verbatim>\<open>format error\<close> or \<^verbatim>\<open>protocol error\<close> changes nothing: the
  command slot, a command still pending in it and the time stamp of the arbitration
  window are as before. The time stamp changes only in a call of \<^verbatim>\<open>cdc_task\<close> that
  answers \<^verbatim>\<open>ok\<close>; \<^verbatim>\<open>hid_task\<close> never writes it. The line \<^verbatim>\<open>55 1 10 -5 0 0 7\<close> is answered
  \<^verbatim>\<open>protocol error\<close> and stores nothing.
\<close>

theorem rejected_line_keeps_state:
  "(snd (cdc_task ovf rx millis st) = Some ack_format_error
      \<or> snd (cdc_task ovf rx millis st) = Some ack_protocol_error
    \<longrightarrow> fst (cdc_task ovf rx millis st) = st)
   \<and> (cdc_command_time (fst (cdc_task ovf rx millis st)) \<noteq> cdc_command_time st
    \<longrightarrow> snd (cdc_task ovf rx millis st) = Some ack_ok)
   \<and> (hid_task env st = Inr (st', rep) \<longrightarrow> cdc_command_time st' = cdc_command_time st)
   \<and> cdc_task ovf ''55 1 10 -5 0 0 7'' millis st = (st, Some ack_protocol_error)"
proof -
  have a: "fst (cdc_task ovf rx millis st) = st"
    if "snd (cdc_task ovf rx millis st) = Some ack_format_error
        \<or> snd (cdc_task ovf rx millis st) = Some ack_protocol_error"
    using that acks_distinct by (intro cdc_task_rejected) auto
  have b: "snd (cdc_task ovf rx millis st) = Some ack_ok"
    if "cdc_command_time (fst (cdc_task ovf rx millis st)) \<noteq> cdc_command_time st"
    using that cdc_task_rejected [of ovf rx millis st] by metis
  show ?thesis
    using a b hid_task_keeps_time [of env st st' rep] cdc_task_example_bad_sum [of ovf millis st]
    by blast
qed

theorem rejected_line_keeps_state_witness:
  "snd (cdc_task ovf_saturate ''55 1 10 -5 0 0 7'' 777 init_state) = Some ack_protocol_error
   \<and> fst (cdc_task ovf_saturate ''55 1 10 -5 0 0 7'' 777 init_state) = init_state
   \<and> cdc_command_time (fst (cdc_task ovf_saturate ''55 1 10 -5 0 0 6'' 777 init_state))
       \<noteq> cdc_command_time init_state
   \<and> snd (cdc_task ovf_saturate ''55 1 10 -5 0 0 6'' 777 init_state) = Some ack_ok
   \<and> hid_task \<lparr>millis_gate = 1, hid_ready = False, rand_first = 0, rand_second = 0,
               millis_now = 1, adc_x = 0, adc_y = 0, gpio_pin = True\<rparr> init_state
       = Inr (init_state\<lparr>hid_start_ms := 1\<rparr>, None)
   \<and> cdc_command_time (init_state\<lparr>hid_start_ms := 1\<rparr>) = cdc_command_time init_state"
proof -
  have p: "snd (cdc_task ovf_saturate ''55 1 10 -5 0 0 7'' 777 init_state) = Some ack_protocol_error"
    by (simp add: cdc_task_example_bad_sum)
  have q: "cdc_command_time (fst (cdc_task ovf_saturate ''55 1 10 -5 0 0 6'' 777 init_state))
             \<noteq> cdc_command_time init_state"
    by (simp add: cdc_task_example_ok init_state_def)
  have r: "hid_task \<lparr>millis_gate = 1, hid_ready = False, rand_first = 0, rand_second = 0,
               millis_now = 1, adc_x = 0, adc_y = 0, gpio_pin = True\<rparr> init_state
       = Inr (init_state\<lparr>hid_start_ms := 1\<rparr>, None)"
    by (simp add: hid_task_def init_state_def)
  show ?thesis
    using rejected_line_keeps_state [of ovf_saturate "''55 1 10 -5 0 0 7''" 777 init_state
        "\<lparr>millis_gate = 1, hid_ready = False, rand_first = 0, rand_second = 0,
          millis_now = 1, adc_x = 0, adc_y = 0, gpio_pin = True\<rparr>"
        "init_state\<lparr>hid_start_ms := 1\<rparr>" None]
      rejected_line_keeps_state [of ovf_saturate "''55 1 10 -5 0 0 6''" 777 init_state] p q r
    by blast
qed

subsection \<open>Invariants of a tick and of the control loop\<close>

lemma hid_task_total:
  assumes "sensitivity_level st \<in> {1, 2, 3}"
  shows "\<exists>st' rep. hid_task env st = Inr (st', rep)"
proof -
  have "\<exists>rep. joystick_path (millis_now env) env (st\<lparr>hid_start_ms := hid_start_ms st + 1\<rparr>)
                = Inr (sens_update (millis_now env) (pressed env)
                         (st\<lparr>hid_start_ms := hid_start_ms st + 1\<rparr>), rep)"
    using assms by (intro joystick_path_total) simp
  then show ?thesis
    unfolding hid_task_def Let_def by auto
qed

lemma hid_task_level:
  assumes "hid_task env st = Inr (st', rep)" and "sensitivity_level st \<in> {1, 2, 3}"
  shows "sensitivity_level st' \<in> {1, 2, 3}"
  using hid_task_cases [OF assms(1)] assms(2)
    sens_update_level [of "st\<lparr>hid_start_ms := hid_start_ms st + 1\<rparr>" "millis_now env" "pressed env"]
  by auto

lemma cdc_task_level:
  "sensitivity_level (fst (cdc_task ovf rx millis st)) = sensitivity_level st"
  using cdc_task_cases [of ovf rx millis st] by auto

lemma cdc_task_press_state:
  "last_button_state (fst (cdc_task ovf rx millis st)) = last_button_state st
   \<and> sensitivity_changed (fst (cdc_task ovf rx millis st)) = sensitivity_changed st"
  using cdc_task_cases [of ovf rx millis st] by auto

lemma main_loop_total:
  "sensitivity_level st \<in> {1, 2, 3} \<Longrightarrow>
   \<exists>st' outs. main_loop ovf ins st = Inr (st', outs) \<and> sensitivity_level st' \<in> {1, 2, 3}"
proof (induction ins arbitrary: st)
  case Nil
  then show ?case by simp
next
  case (Cons i ins)
  obtain st1 rep where h: "hid_task (hid_in i) st = Inr (st1, rep)"
    using hid_task_total [OF Cons.prems] by blast
  have l1: "sensitivity_level st1 \<in> {1, 2, 3}"
    using hid_task_level [OF h Cons.prems] .
  obtain st2 ack where c: "cdc_task ovf (cdc_rx i) (cdc_millis i) st1 = (st2, ack)"
    by (cases "cdc_task ovf (cdc_rx i) (cdc_millis i) st1")
  have "sensitivity_level st2 \<in> {1, 2, 3}"
    using cdc_task_level [of ovf "cdc_rx i" "cdc_millis i" st1] c l1 by simp
  then obtain st3 outs where "main_loop ovf ins st2 = Inr (st3, outs)"
      "sensitivity_level st3 \<in> {1, 2, 3}"
    using Cons.IH by blast
  then show ?case by (simp add: h c)
qed

lemma hid_task_no_new_command:
  assumes "hid_task env st = Inr (st', rep)" and "\<not> cmd_has_data (mouse_cmd st)"
  shows "\<not> cmd_has_data (mouse_cmd st')"
  using hid_task_cases [OF assms(1)] assms(2) by auto

lemma main_loop_never_accepted:
  "main_loop ovf ins st = Inr (st', outs) \<Longrightarrow> \<forall>out \<in> set outs. snd out \<noteq> Some ack_ok \<Longrightarrow>
   cdc_command_time st' = cdc_command_time st
   \<and> (\<not> cmd_has_data (mouse_cmd st) \<longrightarrow> \<not> cmd_has_data (mouse_cmd st'))"
proof (induction ins arbitrary: st outs)
  case Nil
  then show ?case by simp
next
  case (Cons i ins)
  obtain st1 rep where h: "hid_task (hid_in i) st = Inr (st1, rep)"
    using Cons.prems(1) by (auto split: sum.splits)
  obtain st2 ack where c: "cdc_task ovf (cdc_rx i) (cdc_millis i) st1 = (st2, ack)"
    by (cases "cdc_task ovf (cdc_rx i) (cdc_millis i) st1")
  obtain outs' where m: "main_loop ovf ins st2 = Inr (st', outs')" and o: "outs = (rep, ack) # outs'"
    using Cons.prems(1) h c by (auto split: sum.splits)
  have "ack \<noteq> Some ack_ok" and rest: "\<forall>out \<in> set outs'. snd out \<noteq> Some ack_ok"
    using Cons.prems(2) o by simp_all
  then have "st2 = st1"
    using cdc_task_rejected [of ovf "cdc_rx i" "cdc_millis i" st1] c by simp
  then have "cdc_command_time st2 = cdc_command_time st"
      "\<not> cmd_has_data (mouse_cmd st) \<longrightarrow> \<not> cmd_has_data (mouse_cmd st2)"
    using hid_task_keeps_time [OF h] hid_task_no_new_command [OF h] by simp_all
  then show ?case
    using Cons.IH [OF m rest] by simp
qed

subsection \<open>One level change per press\<close>

lemma hid_task_press_step:
  assumes "hid_task env st = Inr (st', rep)" and "\<not> gpio_pin env"
  shows "(sensitivity_level st' \<noteq> sensitivity_level st \<longrightarrow>
            \<not> (last_button_state st \<noteq> 0 \<and> sensitivity_changed st)
            \<and> last_button_state st' \<noteq> 0 \<and> sensitivity_changed st')
       \<and> (last_button_state st \<noteq> 0 \<and> sensitivity_changed st \<longrightarrow>
            last_button_state st' \<noteq> 0 \<and> sensitivity_changed st'
            \<and> sensitivity_level st' = sensitivity_level st)"
proof -
  define s0 where "s0 = st\<lparr>hid_start_ms := hid_start_ms st + 1\<rparr>"
  have b: "pressed env \<noteq> 0" using assms(2) by (simp add: pressed_nonzero)
  consider (same) "sensitivity_level st' = sensitivity_level st"
      "last_button_state st' = last_button_state st" "sensitivity_changed st' = sensitivity_changed st"
    | (joy) "st' = sens_update (millis_now env) (pressed env) s0"
    using hid_task_cases [OF assms(1)] unfolding s0_def by auto
  then show ?thesis
  proof cases
    case same
    then show ?thesis by simp
  next
    case joy
    have f: "sensitivity_level s0 = sensitivity_level st" "last_button_state s0 = last_button_state st"
      "sensitivity_changed s0 = sensitivity_changed st"
      by (simp_all add: s0_def)
    have c: "sensitivity_level st' \<noteq> sensitivity_level st \<longrightarrow>
               \<not> sensitivity_changed st \<and> sensitivity_changed st'"
      using sens_update_level_change [of "millis_now env" "pressed env" s0] f joy by auto
    have d: "last_button_state st \<noteq> 0 \<and> sensitivity_changed st \<longrightarrow>
               sensitivity_changed st' \<and> sensitivity_level st' = sensitivity_level st"
      using sens_update_done [OF b, of s0 "millis_now env"] f joy by auto
    have l: "last_button_state st' \<noteq> 0" using b joy by simp
    show ?thesis using c d l by blast
  qed
qed

lemma level_changes_pressed:
  "\<forall>i \<in> set run. \<not> gpio_pin (hid_in i) \<Longrightarrow>
   level_changes ovf run st \<le> (if last_button_state st \<noteq> 0 \<and> sensitivity_changed st then 0 else 1)"
proof (induction run arbitrary: st)
  case Nil
  then show ?case by simp
next
  case (Cons i run)
  show ?case
  proof (cases "hid_task (hid_in i) st")
    case (Inl e)
    then show ?thesis by simp
  next
    case (Inr r)
    obtain st1 rep where r: "r = (st1, rep)" by (cases r)
    define st2 where "st2 = fst (cdc_task ovf (cdc_rx i) (cdc_millis i) st1)"
    have h: "hid_task (hid_in i) st = Inr (st1, rep)" using Inr r by simp
    have p: "\<not> gpio_pin (hid_in i)" using Cons.prems by simp
    note step = hid_task_press_step [OF h p]
    have keep: "last_button_state st2 = last_button_state st1"
        "sensitivity_changed st2 = sensitivity_changed st1"
      unfolding st2_def using cdc_task_press_state [of ovf "cdc_rx i" "cdc_millis i" st1] by simp_all
    have ih: "level_changes ovf run st2
                \<le> (if last_button_state st2 \<noteq> 0 \<and> sensitivity_changed st2 then 0 else 1)"
      using Cons.prems by (intro Cons.IH) simp
    have eq: "level_changes ovf (i # run) st
                = (if sensitivity_level st1 \<noteq> sensitivity_level st then 1 else 0)
                  + level_changes ovf run st2"
      by (simp add: h st2_def)
    show ?thesis
      unfolding eq using step ih keep by (auto split: if_splits)
  qed
qed

lemma hid_task_joystick_update:
  assumes "sensitivity_level st \<in> {1, 2, 3}"
    and "\<not> millis_gate env - hid_start_ms st < 1" and "hid_ready env"
    and "\<not> cmd_has_data (mouse_cmd st)" and "\<not> millis_now env - cdc_command_time st < 500"
  shows "\<exists>rep. hid_task env st =
           Inr (sens_update (millis_now env) (pressed env)
                  (st\<lparr>hid_start_ms := hid_start_ms st + 1\<rparr>), rep)"
proof -
  have "sensitivity_level (st\<lparr>hid_start_ms := hid_start_ms st + 1\<rparr>) \<in> {1, 2, 3}"
    using assms(1) by simp
  from joystick_path_total [OF this] show ?thesis
    by (simp add: hid_task_joystick [OF assms(2-5)])
qed

lemma hid_task_level_change:
  assumes "hid_task env st = Inr (st', rep)" and "sensitivity_level st' \<noteq> sensitivity_level st"
  shows "\<not> gpio_pin env \<and> last_button_state st \<noteq> 0 \<and> \<not> sensitivity_changed st
       \<and> 1000 \<le> millis_now env - button_press_start_time st
       \<and> \<not> millis_now env - cdc_command_time st < 500
       \<and> \<not> cmd_has_data (mouse_cmd st) \<and> hid_ready env
       \<and> \<not> millis_gate env - hid_start_ms st < 1
       \<and> sensitivity_changed st'"
proof -
  define s0 where "s0 = st\<lparr>hid_start_ms := hid_start_ms st + 1\<rparr>"
  have joy: "\<not> millis_gate env - hid_start_ms st < 1 \<and> hid_ready env
           \<and> \<not> cmd_has_data (mouse_cmd st) \<and> \<not> millis_now env - cdc_command_time st < 500
           \<and> st' = sens_update (millis_now env) (pressed env) s0"
    using hid_task_cases [OF assms(1)] assms(2) unfolding s0_def by auto
  then have "sensitivity_level (sens_update (millis_now env) (pressed env) s0) \<noteq> sensitivity_level s0"
    using assms(2) by (simp add: s0_def)
  from sens_update_level_change [OF this] joy show ?thesis
    by (simp add: s0_def pressed_nonzero)
qed

subsection \<open>A press from its edge to the change of level\<close>

lemma cdc_task_press_time:
  "button_press_start_time (fst (cdc_task ovf rx millis st)) = button_press_start_time st"
  using cdc_task_cases [of ovf rx millis st] by auto

lemma sens_update_below:
  "b \<noteq> 0 \<Longrightarrow> last_button_state st \<noteq> 0 \<Longrightarrow> t - button_press_start_time st < 1000 \<Longrightarrow>
   sens_update t b st = st\<lparr>last_button_state := b\<rparr>"
  by (simp add: sens_update_def BUTTON_PRESS_TIMEOUT_def not_le [symmetric])

lemma sens_update_release:
  "sens_update t 0 st = st\<lparr>last_button_state := 0\<rparr>"
  by (simp add: sens_update_def)

lemma hid_task_held_below:
  assumes "hid_task env st = Inr (st', rep)" and "\<not> gpio_pin env"
    and "last_button_state st \<noteq> 0" and "\<not> sensitivity_changed st"
    and "millis_now env - button_press_start_time st < 1000"
  shows "last_button_state st' \<noteq> 0 \<and> \<not> sensitivity_changed st'
       \<and> button_press_start_time st' = button_press_start_time st
       \<and> sensitivity_level st' = sensitivity_level st"
proof -
  define s0 where "s0 = st\<lparr>hid_start_ms := hid_start_ms st + 1\<rparr>"
  have b: "pressed env \<noteq> 0" using assms(2) by (simp add: pressed_nonzero)
  have "sens_update (millis_now env) (pressed env) s0 = s0\<lparr>last_button_state := pressed env\<rparr>"
    using b assms(3,5) by (intro sens_update_below) (simp_all add: s0_def)
  then show ?thesis
    using hid_task_cases [OF assms(1)] assms(3,4) b unfolding s0_def by auto
qed

lemma main_loop_Cons_Inr:
  assumes "hid_task (hid_in i) st = Inr (st1, rep)"
    and "main_loop ovf ins (fst (cdc_task ovf (cdc_rx i) (cdc_millis i) st1)) = Inr (st3, outs)"
  shows "main_loop ovf (i # ins) st
           = Inr (st3, (rep, snd (cdc_task ovf (cdc_rx i) (cdc_millis i) st1)) # outs)"
  using assms by (simp add: case_prod_beta)

lemma level_changes_Cons_Inr:
  assumes "hid_task (hid_in i) st = Inr (st1, rep)"
  shows "level_changes ovf (i # ins) st
           = (if sensitivity_level st1 \<noteq> sensitivity_level st then 1 else 0)
             + level_changes ovf ins (fst (cdc_task ovf (cdc_rx i) (cdc_millis i) st1))"
  using assms by simp

lemma main_loop_held:
  "sensitivity_level st \<in> {1, 2, 3} \<Longrightarrow> last_button_state st \<noteq> 0 \<Longrightarrow>
   \<not> sensitivity_changed st \<Longrightarrow>
   \<forall>i \<in> set mid. \<not> gpio_pin (hid_in i)
                  \<and> millis_now (hid_in i) - button_press_start_time st < 1000 \<Longrightarrow>
   \<exists>st2 outs. main_loop ovf mid st = Inr (st2, outs)
     \<and> sensitivity_level st2 = sensitivity_level st
     \<and> last_button_state st2 \<noteq> 0 \<and> \<not> sensitivity_changed st2
     \<and> button_press_start_time st2 = button_press_start_time st
     \<and> level_changes ovf mid st = 0"
proof (induction mid arbitrary: st)
  case Nil
  then show ?case by simp
next
  case (Cons i mid)
  obtain st1 rep where h: "hid_task (hid_in i) st = Inr (st1, rep)"
    using hid_task_total [OF Cons.prems(1)] by blast
  have p: "\<not> gpio_pin (hid_in i)"
      "millis_now (hid_in i) - button_press_start_time st < 1000"
    using Cons.prems(4) by simp_all
  note k = hid_task_held_below [OF h p(1) Cons.prems(2,3) p(2)]
  define sa where "sa = fst (cdc_task ovf (cdc_rx i) (cdc_millis i) st1)"
  have sa: "sensitivity_level sa = sensitivity_level st" "last_button_state sa \<noteq> 0"
      "\<not> sensitivity_changed sa" "button_press_start_time sa = button_press_start_time st"
    using k cdc_task_level [of ovf "cdc_rx i" "cdc_millis i" st1]
      cdc_task_press_state [of ovf "cdc_rx i" "cdc_millis i" st1]
      cdc_task_press_time [of ovf "cdc_rx i" "cdc_millis i" st1]
    unfolding sa_def by simp_all
  have "\<exists>st2 outs. main_loop ovf mid sa = Inr (st2, outs)
     \<and> sensitivity_level st2 = sensitivity_level sa
     \<and> last_button_state st2 \<noteq> 0 \<and> \<not> sensitivity_changed st2
     \<and> button_press_start_time st2 = button_press_start_time sa
     \<and> level_changes ovf mid sa = 0"
    using sa Cons.prems(1,4) by (intro Cons.IH) simp_all
  then obtain st2 outs where r: "main_loop ovf mid sa = Inr (st2, outs)"
      "sensitivity_level st2 = sensitivity_level st"
      "last_button_state st2 \<noteq> 0" "\<not> sensitivity_changed st2"
      "button_press_start_time st2 = button_press_start_time st"
      "level_changes ovf mid sa = 0"
    using sa by auto
  have "main_loop ovf (i # mid) st
          = Inr (st2, (rep, snd (cdc_task ovf (cdc_rx i) (cdc_millis i) st1)) # outs)"
    using h r(1) unfolding sa_def by (rule main_loop_Cons_Inr)
  moreover have "level_changes ovf (i # mid) st = 0"
    using level_changes_Cons_Inr [OF h, of ovf mid] r(6) k unfolding sa_def by simp
  ultimately show ?case using r(2-5) by blast
qed

lemma main_loop_used:
  "sensitivity_level st \<in> {1, 2, 3} \<Longrightarrow> last_button_state st \<noteq> 0 \<Longrightarrow>
   sensitivity_changed st \<Longrightarrow> \<forall>i \<in> set rest. \<not> gpio_pin (hid_in i) \<Longrightarrow>
   \<exists>st3 outs. main_loop ovf rest st = Inr (st3, outs)
     \<and> sensitivity_level st3 = sensitivity_level st
     \<and> level_changes ovf rest st = 0"
proof (induction rest arbitrary: st)
  case Nil
  then show ?case by simp
next
  case (Cons i rest)
  obtain st1 rep where h: "hid_task (hid_in i) st = Inr (st1, rep)"
    using hid_task_total [OF Cons.prems(1)] by blast
  have p: "\<not> gpio_pin (hid_in i)" using Cons.prems(4) by simp
  have k: "last_button_state st1 \<noteq> 0" "sensitivity_changed st1"
      "sensitivity_level st1 = sensitivity_level st"
    using hid_task_press_step [OF h p] Cons.prems(2,3) by simp_all
  define sa where "sa = fst (cdc_task ovf (cdc_rx i) (cdc_millis i) st1)"
  have sa: "sensitivity_level sa = sensitivity_level st" "last_button_state sa \<noteq> 0"
      "sensitivity_changed sa"
    using k cdc_task_level [of ovf "cdc_rx i" "cdc_millis i" st1]
      cdc_task_press_state [of ovf "cdc_rx i" "cdc_millis i" st1]
    unfolding sa_def by simp_all
  have "\<exists>st3 outs. main_loop ovf rest sa = Inr (st3, outs)
     \<and> sensitivity_level st3 = sensitivity_level sa
     \<and> level_changes ovf rest sa = 0"
    using sa Cons.prems(1,4) by (intro Cons.IH) simp_all
  then obtain st3 outs where r: "main_loop ovf rest sa = Inr (st3, outs)"
      "sensitivity_level st3 = sensitivity_level st" "level_changes ovf rest sa = 0"
    using sa by auto
  have "main_loop ovf (i # rest) st
          = Inr (st3, (rep, snd (cdc_task ovf (cdc_rx i) (cdc_millis i) st1)) # outs)"
    using h r(1) unfolding sa_def by (rule main_loop_Cons_Inr)
  moreover have "level_changes ovf (i # rest) st = 0"
    using level_changes_Cons_Inr [OF h, of ovf rest] r(3) k unfolding sa_def by simp
  ultimately show ?case using r(2) by blast
qed

lemma main_loop_append:
  "main_loop ovf xs st = Inr (st1, outs1) \<Longrightarrow> main_loop ovf ys st1 = Inr (st2, outs2) \<Longrightarrow>
   main_loop ovf (xs @ ys) st = Inr (st2, outs1 @ outs2)"
proof (induction xs arbitrary: st outs1)
  case Nil
  then show ?case by simp
next
  case (Cons i xs)
  obtain sh rep where h: "hid_task (hid_in i) st = Inr (sh, rep)"
    using Cons.prems(1) by (auto split: sum.splits)
  define sa where "sa = fst (cdc_task ovf (cdc_rx i) (cdc_millis i) sh)"
  obtain outs' where m: "main_loop ovf xs sa = Inr (st1, outs')"
    and o: "outs1 = (rep, snd (cdc_task ovf (cdc_rx i) (cdc_millis i) sh)) # outs'"
    using Cons.prems(1) h unfolding sa_def by (auto simp: case_prod_beta split: sum.splits)
  have "main_loop ovf (xs @ ys) sa = Inr (st2, outs' @ outs2)"
    using m Cons.prems(2) by (rule Cons.IH)
  then have "main_loop ovf (i # xs @ ys) st
          = Inr (st2, (rep, snd (cdc_task ovf (cdc_rx i) (cdc_millis i) sh)) # outs' @ outs2)"
    using h unfolding sa_def by (intro main_loop_Cons_Inr)
  then show ?case by (simp add: o)
qed

lemma level_changes_append:
  "main_loop ovf xs st = Inr (st1, outs1) \<Longrightarrow>
   level_changes ovf (xs @ ys) st = level_changes ovf xs st + level_changes ovf ys st1"
proof (induction xs arbitrary: st outs1)
  case Nil
  then show ?case by simp
next
  case (Cons i xs)
  obtain sh rep where h: "hid_task (hid_in i) st = Inr (sh, rep)"
    using Cons.prems(1) by (auto split: sum.splits)
  define sa where "sa = fst (cdc_task ovf (cdc_rx i) (cdc_millis i) sh)"
  obtain outs' where m: "main_loop ovf xs sa = Inr (st1, outs')"
    using Cons.prems(1) h unfolding sa_def by (auto simp: case_prod_beta split: sum.splits)
  have "level_changes ovf (xs @ ys) sa = level_changes ovf xs sa + level_changes ovf ys st1"
    using m by (rule Cons.IH)
  then show ?case
    using h unfolding sa_def by simp
qed

lemma press_edge_run:
  assumes l: "sensitivity_level st \<in> {1, 2, 3}"
    and j: "\<not> millis_gate (hid_in ie) - hid_start_ms st < 1" "hid_ready (hid_in ie)"
      "\<not> cmd_has_data (mouse_cmd st)" "\<not> millis_now (hid_in ie) - cdc_command_time st < 500"
    and b: "\<not> gpio_pin (hid_in ie)" "last_button_state st = 0"
    and m: "\<forall>i \<in> set mid. \<not> gpio_pin (hid_in i)
                     \<and> millis_now (hid_in i) - millis_now (hid_in ie) < 1000"
  shows "\<exists>st2 outs2. main_loop ovf (ie # mid) st = Inr (st2, outs2)
           \<and> sensitivity_level st2 = sensitivity_level st
           \<and> last_button_state st2 \<noteq> 0 \<and> \<not> sensitivity_changed st2
           \<and> button_press_start_time st2 = millis_now (hid_in ie)
           \<and> level_changes ovf (ie # mid) st = 0"
proof -
  define s0 where "s0 = st\<lparr>hid_start_ms := hid_start_ms st + 1\<rparr>"
  define s1 where "s1 = sens_update (millis_now (hid_in ie)) (pressed (hid_in ie)) s0"
  obtain r where h: "hid_task (hid_in ie) st = Inr (s1, r)"
    using hid_task_joystick_update [OF l j] unfolding s0_def s1_def by blast
  have "s1 = s0\<lparr>button_press_start_time := millis_now (hid_in ie), sensitivity_changed := False,
                 last_button_state := pressed (hid_in ie)\<rparr>"
    unfolding s1_def using b by (intro sens_update_edge) (simp_all add: s0_def pressed_nonzero)
  then have s1: "sensitivity_level s1 = sensitivity_level st" "last_button_state s1 \<noteq> 0"
      "\<not> sensitivity_changed s1" "button_press_start_time s1 = millis_now (hid_in ie)"
    using b(1) by (simp_all add: s0_def pressed_nonzero)
  define sa where "sa = fst (cdc_task ovf (cdc_rx ie) (cdc_millis ie) s1)"
  have sa: "sensitivity_level sa = sensitivity_level st" "last_button_state sa \<noteq> 0"
      "\<not> sensitivity_changed sa" "button_press_start_time sa = millis_now (hid_in ie)"
    using s1 cdc_task_level [of ovf "cdc_rx ie" "cdc_millis ie" s1]
      cdc_task_press_state [of ovf "cdc_rx ie" "cdc_millis ie" s1]
      cdc_task_press_time [of ovf "cdc_rx ie" "cdc_millis ie" s1]
    unfolding sa_def by simp_all
  have "\<exists>st2 outs. main_loop ovf mid sa = Inr (st2, outs)
     \<and> sensitivity_level st2 = sensitivity_level sa
     \<and> last_button_state st2 \<noteq> 0 \<and> \<not> sensitivity_changed st2
     \<and> button_press_start_time st2 = button_press_start_time sa
     \<and> level_changes ovf mid sa = 0"
    using sa l m by (intro main_loop_held) simp_all
  then obtain st2 outs where r: "main_loop ovf mid sa = Inr (st2, outs)"
      "sensitivity_level st2 = sensitivity_level st"
      "last_button_state st2 \<noteq> 0" "\<not> sensitivity_changed st2"
      "button_press_start_time st2 = millis_now (hid_in ie)"
      "level_changes ovf mid sa = 0"
    using sa by auto
  have "main_loop ovf (ie # mid) st
          = Inr (st2, (r, snd (cdc_task ovf (cdc_rx ie) (cdc_millis ie) s1)) # outs)"
    using h r(1) unfolding sa_def by (rule main_loop_Cons_Inr)
  moreover have "level_changes ovf (ie # mid) st = 0"
    using level_changes_Cons_Inr [OF h, of ovf mid] r(6) s1(1) unfolding sa_def by simp
  ultimately show ?thesis using r(2-5) by blast
qed

lemma press_change_run:
  assumes l: "sensitivity_level stm \<in> {1, 2, 3}"
    and j: "\<not> millis_gate (hid_in ic) - hid_start_ms stm < 1" "hid_ready (hid_in ic)"
      "\<not> cmd_has_data (mouse_cmd stm)" "\<not> millis_now (hid_in ic) - cdc_command_time stm < 500"
    and b: "\<not> gpio_pin (hid_in ic)" "last_button_state stm \<noteq> 0" "\<not> sensitivity_changed stm"
      "1000 \<le> millis_now (hid_in ic) - button_press_start_time stm"
    and p: "\<forall>i \<in> set rest. \<not> gpio_pin (hid_in i)"
  shows "\<exists>st3 outs3. main_loop ovf (ic # rest) stm = Inr (st3, outs3)
           \<and> sensitivity_level st3
               = (if sensitivity_level stm = 3 then 1 else sensitivity_level stm + 1)
           \<and> level_changes ovf (ic # rest) stm = 1"
proof -
  define s0 where "s0 = stm\<lparr>hid_start_ms := hid_start_ms stm + 1\<rparr>"
  define s1 where "s1 = sens_update (millis_now (hid_in ic)) (pressed (hid_in ic)) s0"
  obtain r where h: "hid_task (hid_in ic) stm = Inr (s1, r)"
    using hid_task_joystick_update [OF l j] unfolding s0_def s1_def by blast
  have "sensitivity_level s1 = (if sensitivity_level s0 = 3 then 1 else sensitivity_level s0 + 1)
       \<and> sensitivity_changed s1 \<and> sensitivity_level s1 \<noteq> sensitivity_level s0"
    unfolding s1_def using b l
    by (intro sens_update_advance) (simp_all add: s0_def pressed_nonzero)
  then have s1: "sensitivity_level s1
               = (if sensitivity_level stm = 3 then 1 else sensitivity_level stm + 1)"
      "sensitivity_changed s1" "sensitivity_level s1 \<noteq> sensitivity_level stm"
    by (simp_all add: s0_def)
  have s1': "last_button_state s1 \<noteq> 0" "sensitivity_level s1 \<in> {1, 2, 3}"
    using b(1) hid_task_level [OF h l] by (simp_all add: s1_def pressed_nonzero)
  define sa where "sa = fst (cdc_task ovf (cdc_rx ic) (cdc_millis ic) s1)"
  have sa: "sensitivity_level sa = sensitivity_level s1" "last_button_state sa \<noteq> 0"
      "sensitivity_changed sa"
    using s1 s1' cdc_task_level [of ovf "cdc_rx ic" "cdc_millis ic" s1]
      cdc_task_press_state [of ovf "cdc_rx ic" "cdc_millis ic" s1]
    unfolding sa_def by simp_all
  have "\<exists>st3 outs. main_loop ovf rest sa = Inr (st3, outs)
     \<and> sensitivity_level st3 = sensitivity_level sa
     \<and> level_changes ovf rest sa = 0"
    using sa s1' p by (intro main_loop_used) simp_all
  then obtain st3 outs where r: "main_loop ovf rest sa = Inr (st3, outs)"
      "sensitivity_level st3 = sensitivity_level s1" "level_changes ovf rest sa = 0"
    using sa by auto
  have "main_loop ovf (ic # rest) stm
          = Inr (st3, (r, snd (cdc_task ovf (cdc_rx ic) (cdc_millis ic) s1)) # outs)"
    using h r(1) unfolding sa_def by (rule main_loop_Cons_Inr)
  moreover have "level_changes ovf (ic # rest) stm = 1"
    using level_changes_Cons_Inr [OF h, of ovf rest] r(3) s1(3) unfolding sa_def by simp
  ultimately show ?thesis using r(2) s1(1) by simp
qed


lemma hid_task_below_tick:
  assumes l: "sensitivity_level st \<in> {1, 2, 3}"
    and j: "\<not> millis_gate env - hid_start_ms st < 1" "hid_ready env"
      "\<not> cmd_has_data (mouse_cmd st)" "\<not> millis_now env - cdc_command_time st < 500"
    and b: "\<not> gpio_pin env" "last_button_state st \<noteq> 0" "\<not> sensitivity_changed st"
      "millis_now env - button_press_start_time st < 1000"
  shows "\<exists>st5 rep5. hid_task env st = Inr (st5, rep5)
           \<and> button_press_start_time st5 = button_press_start_time st
           \<and> \<not> sensitivity_changed st5 \<and> last_button_state st5 \<noteq> 0
           \<and> sensitivity_level st5 = sensitivity_level st"
proof -
  obtain st5 rep5 where h: "hid_task env st = Inr (st5, rep5)"
    using hid_task_total [OF l] by blast
  from hid_task_held_below [OF h b] h show ?thesis by blast
qed

lemma hid_task_release_tick:
  assumes l: "sensitivity_level st \<in> {1, 2, 3}"
    and j: "\<not> millis_gate env - hid_start_ms st < 1" "hid_ready env"
      "\<not> cmd_has_data (mouse_cmd st)" "\<not> millis_now env - cdc_command_time st < 500"
    and b: "gpio_pin env"
  shows "\<exists>st6 rep6. hid_task env st = Inr (st6, rep6)
           \<and> last_button_state st6 = 0 \<and> sensitivity_level st6 = sensitivity_level st"
proof -
  obtain r where r: "hid_task env st
      = Inr (sens_update (millis_now env) (pressed env) (st\<lparr>hid_start_ms := hid_start_ms st + 1\<rparr>), r)"
    using hid_task_joystick_update [OF l j] by blast
  have "pressed env = 0" using b by (simp add: pressed_def)
  then show ?thesis
    using r by (simp add: sens_update_release)
qed

text \<open>
  Claim C3. The sensitivity level stays in \<open>{1, 2, 3}\<close>: a tick keeps it there, and so
  does any run of the control loop from power-on. The ticks meant are those that
  reach the joystick path: report due, HID ready, no command pending, outside the
  arbitration window.

  Over runs of the control loop: let such a tick read the button pressed when it was
  last read released, or never; this is the press edge, at the clock reading \<open>t0\<close>.
  Let any number of turns follow in which the button reads pressed and the clock
  reads less than \<open>t0 + 1000\<close>, with whatever arrives on the serial line. Then the
  level has not changed, in no turn, and the time recorded for the press is still
  \<open>t0\<close>. Let then a tick reach the joystick path with the button pressed and the clock
  at \<open>t0 + 1000\<close> or more, and let any number of turns follow with the button still
  pressed. Then the whole run ends with the level one step further, from 3 back to 1,
  and it is changed in exactly one turn of the run.

  On single ticks: a tick with the button pressed, pressed at the previous tick too,
  no change made yet during this press and at least 1000 ms on the clock since the
  recorded time advances the level by one step and marks the press as used; with less
  than 1000 ms it keeps the level, the recorded time and the mark; the tick that sees
  the press begin records its time and clears the mark; a tick that reads the button
  released keeps the level and notes the release. The level changes on no other tick
  than the first kind, and over any run of turns in which the button reads pressed
  throughout it changes at most once.
\<close>

theorem sensitivity_cycle:
  "(sensitivity_level st \<in> {1, 2, 3} \<longrightarrow>
      (\<exists>st1 rep1. hid_task env st = Inr (st1, rep1) \<and> sensitivity_level st1 \<in> {1, 2, 3}))
   \<and> (\<exists>st2 outs. main_loop ovf ins init_state = Inr (st2, outs) \<and> sensitivity_level st2 \<in> {1, 2, 3})
   \<and> (sensitivity_level st \<in> {1, 2, 3}
       \<and> \<not> millis_gate (hid_in ie) - hid_start_ms st < 1 \<and> hid_ready (hid_in ie)
       \<and> \<not> cmd_has_data (mouse_cmd st) \<and> \<not> millis_now (hid_in ie) - cdc_command_time st < 500
       \<and> \<not> gpio_pin (hid_in ie) \<and> last_button_state st = 0
       \<and> (\<forall>i \<in> set mid. \<not> gpio_pin (hid_in i)
                        \<and> millis_now (hid_in i) - millis_now (hid_in ie) < 1000)
      \<longrightarrow> (\<exists>stm outm. main_loop ovf (ie # mid) st = Inr (stm, outm)
             \<and> sensitivity_level stm = sensitivity_level st
             \<and> button_press_start_time stm = millis_now (hid_in ie))
          \<and> level_changes ovf (ie # mid) st = 0)
   \<and> (sensitivity_level st \<in> {1, 2, 3}
       \<and> \<not> millis_gate (hid_in ie) - hid_start_ms st < 1 \<and> hid_ready (hid_in ie)
       \<and> \<not> cmd_has_data (mouse_cmd st) \<and> \<not> millis_now (hid_in ie) - cdc_command_time st < 500
       \<and> \<not> gpio_pin (hid_in ie) \<and> last_button_state st = 0
       \<and> (\<forall>i \<in> set mid. \<not> gpio_pin (hid_in i)
                        \<and> millis_now (hid_in i) - millis_now (hid_in ie) < 1000)
       \<and> main_loop ovf (ie # mid) st = Inr (stm, outm)
       \<and> \<not> millis_gate (hid_in ic) - hid_start_ms stm < 1 \<and> hid_ready (hid_in ic)
       \<and> \<not> cmd_has_data (mouse_cmd stm) \<and> \<not> millis_now (hid_in ic) - cdc_command_time stm < 500
       \<and> \<not> gpio_pin (hid_in ic) \<and> 1000 \<le> millis_now (hid_in ic) - millis_now (hid_in ie)
       \<and> (\<forall>i \<in> set rest. \<not> gpio_pin (hid_in i))
      \<longrightarrow> (\<exists>st3 outs3. main_loop ovf (ie # mid @ ic # rest) st = Inr (st3, outs3)
             \<and> sensitivity_level st3
                 = (if sensitivity_level st = 3 then 1 else sensitivity_level st + 1))
          \<and> level_changes ovf (ie # mid @ ic # rest) st = 1)
   \<and> (sensitivity_level st \<in> {1, 2, 3}
       \<and> \<not> millis_gate env - hid_start_ms st < 1 \<and> hid_ready env
       \<and> \<not> cmd_has_data (mouse_cmd st) \<and> \<not> millis_now env - cdc_command_time st < 500
       \<and> \<not> gpio_pin env \<and> last_button_state st \<noteq> 0 \<and> \<not> sensitivity_changed st
       \<and> 1000 \<le> millis_now env - button_press_start_time st
      \<longrightarrow> (\<exists>st3 rep3. hid_task env st = Inr (st3, rep3)
             \<and> sensitivity_level st3 = (if sensitivity_level st = 3 then 1 else sensitivity_level st + 1)
             \<and> sensitivity_changed st3))
   \<and> (sensitivity_level st \<in> {1, 2, 3}
       \<and> \<not> millis_gate env - hid_start_ms st < 1 \<and> hid_ready env
       \<and> \<not> cmd_has_data (mouse_cmd st) \<and> \<not> millis_now env - cdc_command_time st < 500
       \<and> \<not> gpio_pin env \<and> last_button_state st \<noteq> 0 \<and> \<not> sensitivity_changed st
       \<and> millis_now env - button_press_start_time st < 1000
      \<longrightarrow> (\<exists>st5 rep5. hid_task env st = Inr (st5, rep5)
             \<and> button_press_start_time st5 = button_press_start_time st
             \<and> \<not> sensitivity_changed st5 \<and> last_button_state st5 \<noteq> 0
             \<and> sensitivity_level st5 = sensitivity_level st))
   \<and> (sensitivity_level st \<in> {1, 2, 3}
       \<and> \<not> millis_gate env - hid_start_ms st < 1 \<and> hid_ready env
       \<and> \<not> cmd_has_data (mouse_cmd st) \<and> \<not> millis_now env - cdc_command_time st < 500
       \<and> \<not> gpio_pin env \<and> last_button_state st = 0
      \<longrightarrow> (\<exists>st4 rep4. hid_task env st = Inr (st4, rep4)
             \<and> button_press_start_time st4 = millis_now env \<and> \<not> sensitivity_changed st4
             \<and> last_button_state st4 \<noteq> 0 \<and> sensitivity_level st4 = sensitivity_level st))
   \<and> (sensitivity_level st \<in> {1, 2, 3}
       \<and> \<not> millis_gate env - hid_start_ms st < 1 \<and> hid_ready env
       \<and> \<not> cmd_has_data (mouse_cmd st) \<and> \<not> millis_now env - cdc_command_time st < 500
       \<and> gpio_pin env
      \<longrightarrow> (\<exists>st6 rep6. hid_task env st = Inr (st6, rep6)
             \<and> last_button_state st6 = 0 \<and> sensitivity_level st6 = sensitivity_level st))
   \<and> (hid_task env st = Inr (st', rep) \<and> sensitivity_level st' \<noteq> sensitivity_level st
      \<longrightarrow> \<not> millis_gate env - hid_start_ms st < 1 \<and> hid_ready env
          \<and> \<not> cmd_has_data (mouse_cmd st) \<and> \<not> millis_now env - cdc_command_time st < 500
          \<and> \<not> gpio_pin env \<and> last_button_state st \<noteq> 0 \<and> \<not> sensitivity_changed st
          \<and> 1000 \<le> millis_now env - button_press_start_time st)
   \<and> ((\<forall>i \<in> set run. \<not> gpio_pin (hid_in i)) \<longrightarrow> level_changes ovf run st \<le> 1)"
proof -
  define s0 where "s0 = st\<lparr>hid_start_ms := hid_start_ms st + 1\<rparr>"
  have inv: "\<exists>st1 rep1. hid_task env st = Inr (st1, rep1) \<and> sensitivity_level st1 \<in> {1, 2, 3}"
    if "sensitivity_level st \<in> {1, 2, 3}"
    using hid_task_total [OF that, of env] hid_task_level [OF _ that] by blast
  have loop: "\<exists>st2 outs. main_loop ovf ins init_state = Inr (st2, outs) \<and> sensitivity_level st2 \<in> {1, 2, 3}"
    by (intro main_loop_total) (simp add: init_state_def)
  have held: "(\<exists>stm outm. main_loop ovf (ie # mid) st = Inr (stm, outm)
             \<and> sensitivity_level stm = sensitivity_level st
             \<and> button_press_start_time stm = millis_now (hid_in ie))
          \<and> level_changes ovf (ie # mid) st = 0"
    if l: "sensitivity_level st \<in> {1, 2, 3}"
      and j: "\<not> millis_gate (hid_in ie) - hid_start_ms st < 1" "hid_ready (hid_in ie)"
        "\<not> cmd_has_data (mouse_cmd st)" "\<not> millis_now (hid_in ie) - cdc_command_time st < 500"
      and b: "\<not> gpio_pin (hid_in ie)" "last_button_state st = 0"
      and m: "\<forall>i \<in> set mid. \<not> gpio_pin (hid_in i)
                        \<and> millis_now (hid_in i) - millis_now (hid_in ie) < 1000"
    using press_edge_run [OF l j b m, of ovf] by blast
  have episode: "(\<exists>st3 outs3. main_loop ovf (ie # mid @ ic # rest) st = Inr (st3, outs3)
             \<and> sensitivity_level st3
                 = (if sensitivity_level st = 3 then 1 else sensitivity_level st + 1))
          \<and> level_changes ovf (ie # mid @ ic # rest) st = 1"
    if l: "sensitivity_level st \<in> {1, 2, 3}"
      and j: "\<not> millis_gate (hid_in ie) - hid_start_ms st < 1" "hid_ready (hid_in ie)"
        "\<not> cmd_has_data (mouse_cmd st)" "\<not> millis_now (hid_in ie) - cdc_command_time st < 500"
      and b: "\<not> gpio_pin (hid_in ie)" "last_button_state st = 0"
      and m: "\<forall>i \<in> set mid. \<not> gpio_pin (hid_in i)
                        \<and> millis_now (hid_in i) - millis_now (hid_in ie) < 1000"
      and run: "main_loop ovf (ie # mid) st = Inr (stm, outm)"
      and jc: "\<not> millis_gate (hid_in ic) - hid_start_ms stm < 1" "hid_ready (hid_in ic)"
        "\<not> cmd_has_data (mouse_cmd stm)" "\<not> millis_now (hid_in ic) - cdc_command_time stm < 500"
      and bc: "\<not> gpio_pin (hid_in ic)" "1000 \<le> millis_now (hid_in ic) - millis_now (hid_in ie)"
      and p: "\<forall>i \<in> set rest. \<not> gpio_pin (hid_in i)"
  proof -
    have e: "sensitivity_level stm = sensitivity_level st" "last_button_state stm \<noteq> 0"
        "\<not> sensitivity_changed stm" "button_press_start_time stm = millis_now (hid_in ie)"
        "level_changes ovf (ie # mid) st = 0"
      using press_edge_run [OF l j b m, of ovf] run by auto
    have lm: "sensitivity_level stm \<in> {1, 2, 3}" using l e(1) by simp
    have t: "1000 \<le> millis_now (hid_in ic) - button_press_start_time stm"
      using bc(2) e(4) by simp
    obtain st3 outs3 where c: "main_loop ovf (ic # rest) stm = Inr (st3, outs3)"
        "sensitivity_level st3 = (if sensitivity_level stm = 3 then 1 else sensitivity_level stm + 1)"
        "level_changes ovf (ic # rest) stm = 1"
      using press_change_run [OF lm jc bc(1) e(2,3) t p, of ovf] by blast
    have "main_loop ovf ((ie # mid) @ ic # rest) st = Inr (st3, outm @ outs3)"
      using run c(1) by (rule main_loop_append)
    moreover have "level_changes ovf ((ie # mid) @ ic # rest) st
                     = level_changes ovf (ie # mid) st + level_changes ovf (ic # rest) stm"
      using run by (rule level_changes_append)
    ultimately show ?thesis
      using c(2,3) e(1,5) by simp
  qed
  have adv: "\<exists>st3 rep3. hid_task env st = Inr (st3, rep3)
             \<and> sensitivity_level st3 = (if sensitivity_level st = 3 then 1 else sensitivity_level st + 1)
             \<and> sensitivity_changed st3"
    if l: "sensitivity_level st \<in> {1, 2, 3}"
      and j: "\<not> millis_gate env - hid_start_ms st < 1" "hid_ready env"
        "\<not> cmd_has_data (mouse_cmd st)" "\<not> millis_now env - cdc_command_time st < 500"
      and b: "\<not> gpio_pin env" "last_button_state st \<noteq> 0" "\<not> sensitivity_changed st"
        "1000 \<le> millis_now env - button_press_start_time st"
  proof -
    obtain r where r: "hid_task env st = Inr (sens_update (millis_now env) (pressed env) s0, r)"
      using hid_task_joystick_update [OF l j] unfolding s0_def by blast
    have "sensitivity_level (sens_update (millis_now env) (pressed env) s0)
            = (if sensitivity_level s0 = 3 then 1 else sensitivity_level s0 + 1)
          \<and> sensitivity_changed (sens_update (millis_now env) (pressed env) s0)"
      using b l sens_update_advance [of "pressed env" s0 "millis_now env"]
      by (simp add: s0_def pressed_nonzero)
    then show ?thesis using r by (simp add: s0_def)
  qed
  have below: "\<exists>st5 rep5. hid_task env st = Inr (st5, rep5)
             \<and> button_press_start_time st5 = button_press_start_time st
             \<and> \<not> sensitivity_changed st5 \<and> last_button_state st5 \<noteq> 0
             \<and> sensitivity_level st5 = sensitivity_level st"
    if l: "sensitivity_level st \<in> {1, 2, 3}"
      and j: "\<not> millis_gate env - hid_start_ms st < 1" "hid_ready env"
        "\<not> cmd_has_data (mouse_cmd st)" "\<not> millis_now env - cdc_command_time st < 500"
      and b: "\<not> gpio_pin env" "last_button_state st \<noteq> 0" "\<not> sensitivity_changed st"
        "millis_now env - button_press_start_time st < 1000"
    using l j b by (rule hid_task_below_tick)
  have edge: "\<exists>st4 rep4. hid_task env st = Inr (st4, rep4)
             \<and> button_press_start_time st4 = millis_now env \<and> \<not> sensitivity_changed st4
             \<and> last_button_state st4 \<noteq> 0 \<and> sensitivity_level st4 = sensitivity_level st"
    if l: "sensitivity_level st \<in> {1, 2, 3}"
      and j: "\<not> millis_gate env - hid_start_ms st < 1" "hid_ready env"
        "\<not> cmd_has_data (mouse_cmd st)" "\<not> millis_now env - cdc_command_time st < 500"
      and b: "\<not> gpio_pin env" "last_button_state st = 0"
  proof -
    obtain r where r: "hid_task env st = Inr (sens_update (millis_now env) (pressed env) s0, r)"
      using hid_task_joystick_update [OF l j] unfolding s0_def by blast
    have "sens_update (millis_now env) (pressed env) s0
            = s0\<lparr>button_press_start_time := millis_now env, sensitivity_changed := False,
                 last_button_state := pressed env\<rparr>"
      using b by (intro sens_update_edge) (simp_all add: s0_def pressed_nonzero)
    then show ?thesis using r b(1) by (simp add: s0_def pressed_nonzero)
  qed
  have release: "\<exists>st6 rep6. hid_task env st = Inr (st6, rep6)
             \<and> last_button_state st6 = 0 \<and> sensitivity_level st6 = sensitivity_level st"
    if l: "sensitivity_level st \<in> {1, 2, 3}"
      and j: "\<not> millis_gate env - hid_start_ms st < 1" "hid_ready env"
        "\<not> cmd_has_data (mouse_cmd st)" "\<not> millis_now env - cdc_command_time st < 500"
      and b: "gpio_pin env"
    using l j b by (rule hid_task_release_tick)
  have only: "\<not> millis_gate env - hid_start_ms st < 1 \<and> hid_ready env
          \<and> \<not> cmd_has_data (mouse_cmd st) \<and> \<not> millis_now env - cdc_command_time st < 500
          \<and> \<not> gpio_pin env \<and> last_button_state st \<noteq> 0 \<and> \<not> sensitivity_changed st
          \<and> 1000 \<le> millis_now env - button_press_start_time st"
    if "hid_task env st = Inr (st', rep)" "sensitivity_level st' \<noteq> sensitivity_level st"
    using hid_task_level_change [OF that] by blast
  have once: "level_changes ovf run st \<le> 1" if "\<forall>i \<in> set run. \<not> gpio_pin (hid_in i)"
    using level_changes_pressed [OF that, where st = st and ovf = ovf] by (simp split: if_splits)
  show ?thesis
    apply (intro conjI)
    subgoal using inv by blast
    subgoal by (rule loop)
    subgoal using held by blast
    subgoal using episode by blast
    subgoal using adv by blast
    subgoal using below by blast
    subgoal using edge by blast
    subgoal using release by blast
    subgoal using only by blast
    subgoal using once by blast
    done
qed

theorem sensitivity_cycle_witness:
  "main_loop ovf_saturate
        [\<lparr>hid_in = \<lparr>millis_gate = 600, hid_ready = True, rand_first = 0, rand_second = 0,
            millis_now = 600, adc_x = 2048, adc_y = 2048, gpio_pin = False\<rparr>,
          cdc_rx = [], cdc_millis = 600\<rparr>,
         \<lparr>hid_in = \<lparr>millis_gate = 1000, hid_ready = True, rand_first = 0, rand_second = 0,
            millis_now = 1000, adc_x = 2048, adc_y = 2048, gpio_pin = False\<rparr>,
          cdc_rx = [], cdc_millis = 1000\<rparr>,
         \<lparr>hid_in = \<lparr>millis_gate = 1500, hid_ready = True, rand_first = 0, rand_second = 0,
            millis_now = 1500, adc_x = 2048, adc_y = 2048, gpio_pin = False\<rparr>,
          cdc_rx = [], cdc_millis = 1500\<rparr>] init_state
     = Inr ((init_state\<lparr>hid_start_ms := 3, last_button_state := 1, button_press_start_time := 600\<rparr>),
         [(Some (Mouse_report 1 0 0 0 0), None), (Some (Mouse_report 1 0 0 0 0), None),
          (Some (Mouse_report 1 0 0 0 0), None)])
   \<and> level_changes ovf_saturate
        [\<lparr>hid_in = \<lparr>millis_gate = 600, hid_ready = True, rand_first = 0, rand_second = 0,
            millis_now = 600, adc_x = 2048, adc_y = 2048, gpio_pin = False\<rparr>,
          cdc_rx = [], cdc_millis = 600\<rparr>,
         \<lparr>hid_in = \<lparr>millis_gate = 1000, hid_ready = True, rand_first = 0, rand_second = 0,
            millis_now = 1000, adc_x = 2048, adc_y = 2048, gpio_pin = False\<rparr>,
          cdc_rx = [], cdc_millis = 1000\<rparr>,
         \<lparr>hid_in = \<lparr>millis_gate = 1500, hid_ready = True, rand_first = 0, rand_second = 0,
            millis_now = 1500, adc_x = 2048, adc_y = 2048, gpio_pin = False\<rparr>,
          cdc_rx = [], cdc_millis = 1500\<rparr>] init_state = 0
   \<and> (\<exists>st3 outs3. main_loop ovf_saturate
        [\<lparr>hid_in = \<lparr>millis_gate = 600, hid_ready = True, rand_first = 0, rand_second = 0,
            millis_now = 600, adc_x = 2048, adc_y = 2048, gpio_pin = False\<rparr>,
          cdc_rx = [], cdc_millis = 600\<rparr>,
         \<lparr>hid_in = \<lparr>millis_gate = 1000, hid_ready = True, rand_first = 0, rand_second = 0,
            millis_now = 1000, adc_x = 2048, adc_y = 2048, gpio_pin = False\<rparr>,
          cdc_rx = [], cdc_millis = 1000\<rparr>,
         \<lparr>hid_in = \<lparr>millis_gate = 1500, hid_ready = True, rand_first = 0, rand_second = 0,
            millis_now = 1500, adc_x = 2048, adc_y = 2048, gpio_pin = False\<rparr>,
          cdc_rx = [], cdc_millis = 1500\<rparr>,
         \<lparr>hid_in = \<lparr>millis_gate = 1600, hid_ready = True, rand_first = 0, rand_second = 0,
            millis_now = 1600, adc_x = 2048, adc_y = 2048, gpio_pin = False\<rparr>,
          cdc_rx = [], cdc_millis = 1600\<rparr>,
         \<lparr>hid_in = \<lparr>millis_gate = 1700, hid_ready = True, rand_first = 0, rand_second = 0,
            millis_now = 1700, adc_x = 2048, adc_y = 2048, gpio_pin = False\<rparr>,
          cdc_rx = [], cdc_millis = 1700\<rparr>] init_state = Inr (st3, outs3)
      \<and> sensitivity_level st3 = 3)
   \<and> level_changes ovf_saturate
        [\<lparr>hid_in = \<lparr>millis_gate = 600, hid_ready = True, rand_first = 0, rand_second = 0,
            millis_now = 600, adc_x = 2048, adc_y = 2048, gpio_pin = False\<rparr>,
          cdc_rx = [], cdc_millis = 600\<rparr>,
         \<lparr>hid_in = \<lparr>millis_gate = 1000, hid_ready = True, rand_first = 0, rand_second = 0,
            millis_now = 1000, adc_x = 2048, adc_y = 2048, gpio_pin = False\<rparr>,
          cdc_rx = [], cdc_millis = 1000\<rparr>,
         \<lparr>hid_in = \<lparr>millis_gate = 1500, hid_ready = True, rand_first = 0, rand_second = 0,
            millis_now = 1500, adc_x = 2048, adc_y = 2048, gpio_pin = False\<rparr>,
          cdc_rx = [], cdc_millis = 1500\<rparr>,
         \<lparr>hid_in = \<lparr>millis_gate = 1600, hid_ready = True, rand_first = 0, rand_second = 0,
            millis_now = 1600, adc_x = 2048, adc_y = 2048, gpio_pin = False\<rparr>,
          cdc_rx = [], cdc_millis = 1600\<rparr>,
         \<lparr>hid_in = \<lparr>millis_gate = 1700, hid_ready = True, rand_first = 0, rand_second = 0,
            millis_now = 1700, adc_x = 2048, adc_y = 2048, gpio_pin = False\<rparr>,
          cdc_rx = [], cdc_millis = 1700\<rparr>] init_state = 1
   \<and> main_loop ovf_saturate
        [\<lparr>hid_in = \<lparr>millis_gate = 600, hid_ready = True, rand_first = 0, rand_second = 0,
            millis_now = 600, adc_x = 2048, adc_y = 2048, gpio_pin = False\<rparr>,
          cdc_rx = [], cdc_millis = 600\<rparr>,
         \<lparr>hid_in = \<lparr>millis_gate = 1000, hid_ready = True, rand_first = 0, rand_second = 0,
            millis_now = 1000, adc_x = 2048, adc_y = 2048, gpio_pin = False\<rparr>,
          cdc_rx = [], cdc_millis = 1000\<rparr>,
         \<lparr>hid_in = \<lparr>millis_gate = 1500, hid_ready = True, rand_first = 0, rand_second = 0,
            millis_now = 1500, adc_x = 2048, adc_y = 2048, gpio_pin = False\<rparr>,
          cdc_rx = [], cdc_millis = 1500\<rparr>,
         \<lparr>hid_in = \<lparr>millis_gate = 1600, hid_ready = True, rand_first = 0, rand_second = 0,
            millis_now = 1600, adc_x = 2048, adc_y = 2048, gpio_pin = False\<rparr>,
          cdc_rx = [], cdc_millis = 1600\<rparr>,
         \<lparr>hid_in = \<lparr>millis_gate = 1700, hid_ready = True, rand_first = 0, rand_second = 0,
            millis_now = 1700, adc_x = 2048, adc_y = 2048, gpio_pin = False\<rparr>,
          cdc_rx = [], cdc_millis = 1700\<rparr>,
         \<lparr>hid_in = \<lparr>millis_gate = 1800, hid_ready = True, rand_first = 0, rand_second = 0,
            millis_now = 1800, adc_x = 2048, adc_y = 2048, gpio_pin = True\<rparr>,
          cdc_rx = [], cdc_millis = 1800\<rparr>] init_state
     = Inr ((init_state\<lparr>sensitivity_level := 3, hid_start_ms := 6, button_press_start_time := 600,
                      sensitivity_changed := True\<rparr>),
         [(Some (Mouse_report 1 0 0 0 0), None), (Some (Mouse_report 1 0 0 0 0), None),
          (Some (Mouse_report 1 0 0 0 0), None), (None, None), (None, None), (None, None)])
   \<and> (\<exists>st3 outs3. main_loop ovf_saturate
        [\<lparr>hid_in = \<lparr>millis_gate = 1900, hid_ready = True, rand_first = 0, rand_second = 0,
            millis_now = 1900, adc_x = 2048, adc_y = 2048, gpio_pin = False\<rparr>,
          cdc_rx = [], cdc_millis = 1900\<rparr>,
         \<lparr>hid_in = \<lparr>millis_gate = 2500, hid_ready = True, rand_first = 0, rand_second = 0,
            millis_now = 2500, adc_x = 2048, adc_y = 2048, gpio_pin = False\<rparr>,
          cdc_rx = [], cdc_millis = 2500\<rparr>,
         \<lparr>hid_in = \<lparr>millis_gate = 2900, hid_ready = True, rand_first = 0, rand_second = 0,
            millis_now = 2900, adc_x = 2048, adc_y = 2048, gpio_pin = False\<rparr>,
          cdc_rx = [], cdc_millis = 2900\<rparr>]
        (init_state\<lparr>sensitivity_level := 3, hid_start_ms := 6, button_press_start_time := 600,
                      sensitivity_changed := True\<rparr>) = Inr (st3, outs3)
      \<and> sensitivity_level st3 = 1)
   \<and> level_changes ovf_saturate
        [\<lparr>hid_in = \<lparr>millis_gate = 1900, hid_ready = True, rand_first = 0, rand_second = 0,
            millis_now = 1900, adc_x = 2048, adc_y = 2048, gpio_pin = False\<rparr>,
          cdc_rx = [], cdc_millis = 1900\<rparr>,
         \<lparr>hid_in = \<lparr>millis_gate = 2500, hid_ready = True, rand_first = 0, rand_second = 0,
            millis_now = 2500, adc_x = 2048, adc_y = 2048, gpio_pin = False\<rparr>,
          cdc_rx = [], cdc_millis = 2500\<rparr>,
         \<lparr>hid_in = \<lparr>millis_gate = 2900, hid_ready = True, rand_first = 0, rand_second = 0,
            millis_now = 2900, adc_x = 2048, adc_y = 2048, gpio_pin = False\<rparr>,
          cdc_rx = [], cdc_millis = 2900\<rparr>]
        (init_state\<lparr>sensitivity_level := 3, hid_start_ms := 6, button_press_start_time := 600,
                      sensitivity_changed := True\<rparr>) = 1
   \<and> (\<exists>st4 rep4. hid_task
         \<lparr>millis_gate = 600, hid_ready = True, rand_first = 0, rand_second = 0,
          millis_now = 600, adc_x = 2048, adc_y = 2048, gpio_pin = False\<rparr> init_state = Inr (st4, rep4)
      \<and> button_press_start_time st4 = 600 \<and> \<not> sensitivity_changed st4
      \<and> last_button_state st4 \<noteq> 0 \<and> sensitivity_level st4 = 2)
   \<and> (\<exists>st5 rep5. hid_task
         \<lparr>millis_gate = 1599, hid_ready = True, rand_first = 0, rand_second = 0,
          millis_now = 1599, adc_x = 2048, adc_y = 2048, gpio_pin = False\<rparr>
         (init_state\<lparr>hid_start_ms := 3, last_button_state := 1, button_press_start_time := 600\<rparr>) = Inr (st5, rep5)
      \<and> button_press_start_time st5 = 600 \<and> \<not> sensitivity_changed st5
      \<and> last_button_state st5 \<noteq> 0 \<and> sensitivity_level st5 = 2)
   \<and> (\<exists>st3 rep3. hid_task
         \<lparr>millis_gate = 1600, hid_ready = True, rand_first = 0, rand_second = 0,
          millis_now = 1600, adc_x = 2048, adc_y = 2048, gpio_pin = False\<rparr>
         (init_state\<lparr>hid_start_ms := 3, last_button_state := 1, button_press_start_time := 600\<rparr>) = Inr (st3, rep3)
      \<and> sensitivity_level st3 = 3 \<and> sensitivity_changed st3)
   \<and> (\<exists>st6 rep6. hid_task
         \<lparr>millis_gate = 1599, hid_ready = True, rand_first = 0, rand_second = 0,
          millis_now = 1599, adc_x = 2048, adc_y = 2048, gpio_pin = True\<rparr>
         (init_state\<lparr>hid_start_ms := 3, last_button_state := 1, button_press_start_time := 600\<rparr>) = Inr (st6, rep6)
      \<and> last_button_state st6 = 0 \<and> sensitivity_level st6 = 2)"
proof -
  have evM: "main_loop ovf_saturate
        [\<lparr>hid_in = \<lparr>millis_gate = 600, hid_ready = True, rand_first = 0, rand_second = 0,
            millis_now = 600, adc_x = 2048, adc_y = 2048, gpio_pin = False\<rparr>,
          cdc_rx = [], cdc_millis = 600\<rparr>,
         \<lparr>hid_in = \<lparr>millis_gate = 1000, hid_ready = True, rand_first = 0, rand_second = 0,
            millis_now = 1000, adc_x = 2048, adc_y = 2048, gpio_pin = False\<rparr>,
          cdc_rx = [], cdc_millis = 1000\<rparr>,
         \<lparr>hid_in = \<lparr>millis_gate = 1500, hid_ready = True, rand_first = 0, rand_second = 0,
            millis_now = 1500, adc_x = 2048, adc_y = 2048, gpio_pin = False\<rparr>,
          cdc_rx = [], cdc_millis = 1500\<rparr>] init_state
     = Inr ((init_state\<lparr>hid_start_ms := 3, last_button_state := 1, button_press_start_time := 600\<rparr>),
         [(Some (Mouse_report 1 0 0 0 0), None), (Some (Mouse_report 1 0 0 0 0), None),
          (Some (Mouse_report 1 0 0 0 0), None)])"
    by (simp add: hid_task_def joystick_path_def read_joystick_def divisor_at_def
        sensitivity_divisors_def init_state_def center_def deadzone_def Let_def
        CDC_BLOCK_TIMEOUT_def BUTTON_PRESS_TIMEOUT_def cdc_task_def)
  have evR: "main_loop ovf_saturate
        [\<lparr>hid_in = \<lparr>millis_gate = 600, hid_ready = True, rand_first = 0, rand_second = 0,
            millis_now = 600, adc_x = 2048, adc_y = 2048, gpio_pin = False\<rparr>,
          cdc_rx = [], cdc_millis = 600\<rparr>,
         \<lparr>hid_in = \<lparr>millis_gate = 1000, hid_ready = True, rand_first = 0, rand_second = 0,
            millis_now = 1000, adc_x = 2048, adc_y = 2048, gpio_pin = False\<rparr>,
          cdc_rx = [], cdc_millis = 1000\<rparr>,
         \<lparr>hid_in = \<lparr>millis_gate = 1500, hid_ready = True, rand_first = 0, rand_second = 0,
            millis_now = 1500, adc_x = 2048, adc_y = 2048, gpio_pin = False\<rparr>,
          cdc_rx = [], cdc_millis = 1500\<rparr>,
         \<lparr>hid_in = \<lparr>millis_gate = 1600, hid_ready = True, rand_first = 0, rand_second = 0,
            millis_now = 1600, adc_x = 2048, adc_y = 2048, gpio_pin = False\<rparr>,
          cdc_rx = [], cdc_millis = 1600\<rparr>,
         \<lparr>hid_in = \<lparr>millis_gate = 1700, hid_ready = True, rand_first = 0, rand_second = 0,
            millis_now = 1700, adc_x = 2048, adc_y = 2048, gpio_pin = False\<rparr>,
          cdc_rx = [], cdc_millis = 1700\<rparr>,
         \<lparr>hid_in = \<lparr>millis_gate = 1800, hid_ready = True, rand_first = 0, rand_second = 0,
            millis_now = 1800, adc_x = 2048, adc_y = 2048, gpio_pin = True\<rparr>,
          cdc_rx = [], cdc_millis = 1800\<rparr>] init_state
     = Inr ((init_state\<lparr>sensitivity_level := 3, hid_start_ms := 6, button_press_start_time := 600,
                      sensitivity_changed := True\<rparr>),
         [(Some (Mouse_report 1 0 0 0 0), None), (Some (Mouse_report 1 0 0 0 0), None),
          (Some (Mouse_report 1 0 0 0 0), None), (None, None), (None, None), (None, None)])"
    by (simp add: hid_task_def joystick_path_def read_joystick_def divisor_at_def
        sensitivity_divisors_def init_state_def center_def deadzone_def Let_def
        CDC_BLOCK_TIMEOUT_def BUTTON_PRESS_TIMEOUT_def cdc_task_def)
  have evM2: "main_loop ovf_saturate
        [\<lparr>hid_in = \<lparr>millis_gate = 1900, hid_ready = True, rand_first = 0, rand_second = 0,
            millis_now = 1900, adc_x = 2048, adc_y = 2048, gpio_pin = False\<rparr>,
          cdc_rx = [], cdc_millis = 1900\<rparr>,
         \<lparr>hid_in = \<lparr>millis_gate = 2500, hid_ready = True, rand_first = 0, rand_second = 0,
            millis_now = 2500, adc_x = 2048, adc_y = 2048, gpio_pin = False\<rparr>,
          cdc_rx = [], cdc_millis = 2500\<rparr>]
        (init_state\<lparr>sensitivity_level := 3, hid_start_ms := 6, button_press_start_time := 600,
                      sensitivity_changed := True\<rparr>)
     = Inr ((init_state\<lparr>sensitivity_level := 3, hid_start_ms := 8, last_button_state := 1,
                      button_press_start_time := 1900\<rparr>),
         [(Some (Mouse_report 1 0 0 0 0), None), (Some (Mouse_report 1 0 0 0 0), None)])"
    by (simp add: hid_task_def joystick_path_def read_joystick_def divisor_at_def
        sensitivity_divisors_def init_state_def center_def deadzone_def Let_def
        CDC_BLOCK_TIMEOUT_def BUTTON_PRESS_TIMEOUT_def cdc_task_def)
  note first = sensitivity_cycle [where ovf = ovf_saturate and st = init_state
        and ie = "\<lparr>hid_in = \<lparr>millis_gate = 600, hid_ready = True, rand_first = 0, rand_second = 0,
            millis_now = 600, adc_x = 2048, adc_y = 2048, gpio_pin = False\<rparr>,
          cdc_rx = [], cdc_millis = 600\<rparr>"
        and mid = "[\<lparr>hid_in = \<lparr>millis_gate = 1000, hid_ready = True, rand_first = 0, rand_second = 0,
            millis_now = 1000, adc_x = 2048, adc_y = 2048, gpio_pin = False\<rparr>,
          cdc_rx = [], cdc_millis = 1000\<rparr>,
         \<lparr>hid_in = \<lparr>millis_gate = 1500, hid_ready = True, rand_first = 0, rand_second = 0,
            millis_now = 1500, adc_x = 2048, adc_y = 2048, gpio_pin = False\<rparr>,
          cdc_rx = [], cdc_millis = 1500\<rparr>]"
        and ic = "\<lparr>hid_in = \<lparr>millis_gate = 1600, hid_ready = True, rand_first = 0, rand_second = 0,
            millis_now = 1600, adc_x = 2048, adc_y = 2048, gpio_pin = False\<rparr>,
          cdc_rx = [], cdc_millis = 1600\<rparr>"
        and rest = "[\<lparr>hid_in = \<lparr>millis_gate = 1700, hid_ready = True, rand_first = 0, rand_second = 0,
            millis_now = 1700, adc_x = 2048, adc_y = 2048, gpio_pin = False\<rparr>,
          cdc_rx = [], cdc_millis = 1700\<rparr>]"
        and stm = "init_state\<lparr>hid_start_ms := 3, last_button_state := 1, button_press_start_time := 600\<rparr>"
        and outm = "[(Some (Mouse_report 1 0 0 0 0), None), (Some (Mouse_report 1 0 0 0 0), None),
          (Some (Mouse_report 1 0 0 0 0), None)]"]
  note second = sensitivity_cycle [where ovf = ovf_saturate
        and st = "init_state\<lparr>sensitivity_level := 3, hid_start_ms := 6, button_press_start_time := 600,
                      sensitivity_changed := True\<rparr>"
        and ie = "\<lparr>hid_in = \<lparr>millis_gate = 1900, hid_ready = True, rand_first = 0, rand_second = 0,
            millis_now = 1900, adc_x = 2048, adc_y = 2048, gpio_pin = False\<rparr>,
          cdc_rx = [], cdc_millis = 1900\<rparr>"
        and mid = "[\<lparr>hid_in = \<lparr>millis_gate = 2500, hid_ready = True, rand_first = 0, rand_second = 0,
            millis_now = 2500, adc_x = 2048, adc_y = 2048, gpio_pin = False\<rparr>,
          cdc_rx = [], cdc_millis = 2500\<rparr>]"
        and ic = "\<lparr>hid_in = \<lparr>millis_gate = 2900, hid_ready = True, rand_first = 0, rand_second = 0,
            millis_now = 2900, adc_x = 2048, adc_y = 2048, gpio_pin = False\<rparr>,
          cdc_rx = [], cdc_millis = 2900\<rparr>"
        and rest = "[]"
        and stm = "init_state\<lparr>sensitivity_level := 3, hid_start_ms := 8, last_button_state := 1,
                      button_press_start_time := 1900\<rparr>"
        and outm = "[(Some (Mouse_report 1 0 0 0 0), None), (Some (Mouse_report 1 0 0 0 0), None)]"]
  have held: "level_changes ovf_saturate
        [\<lparr>hid_in = \<lparr>millis_gate = 600, hid_ready = True, rand_first = 0, rand_second = 0,
            millis_now = 600, adc_x = 2048, adc_y = 2048, gpio_pin = False\<rparr>,
          cdc_rx = [], cdc_millis = 600\<rparr>,
         \<lparr>hid_in = \<lparr>millis_gate = 1000, hid_ready = True, rand_first = 0, rand_second = 0,
            millis_now = 1000, adc_x = 2048, adc_y = 2048, gpio_pin = False\<rparr>,
          cdc_rx = [], cdc_millis = 1000\<rparr>,
         \<lparr>hid_in = \<lparr>millis_gate = 1500, hid_ready = True, rand_first = 0, rand_second = 0,
            millis_now = 1500, adc_x = 2048, adc_y = 2048, gpio_pin = False\<rparr>,
          cdc_rx = [], cdc_millis = 1500\<rparr>] init_state = 0"
    using first [THEN conjunct2, THEN conjunct2, THEN conjunct1] by (simp add: init_state_def)
  have ep: "(\<exists>st3 outs3. main_loop ovf_saturate
        [\<lparr>hid_in = \<lparr>millis_gate = 600, hid_ready = True, rand_first = 0, rand_second = 0,
            millis_now = 600, adc_x = 2048, adc_y = 2048, gpio_pin = False\<rparr>,
          cdc_rx = [], cdc_millis = 600\<rparr>,
         \<lparr>hid_in = \<lparr>millis_gate = 1000, hid_ready = True, rand_first = 0, rand_second = 0,
            millis_now = 1000, adc_x = 2048, adc_y = 2048, gpio_pin = False\<rparr>,
          cdc_rx = [], cdc_millis = 1000\<rparr>,
         \<lparr>hid_in = \<lparr>millis_gate = 1500, hid_ready = True, rand_first = 0, rand_second = 0,
            millis_now = 1500, adc_x = 2048, adc_y = 2048, gpio_pin = False\<rparr>,
          cdc_rx = [], cdc_millis = 1500\<rparr>,
         \<lparr>hid_in = \<lparr>millis_gate = 1600, hid_ready = True, rand_first = 0, rand_second = 0,
            millis_now = 1600, adc_x = 2048, adc_y = 2048, gpio_pin = False\<rparr>,
          cdc_rx = [], cdc_millis = 1600\<rparr>,
         \<lparr>hid_in = \<lparr>millis_gate = 1700, hid_ready = True, rand_first = 0, rand_second = 0,
            millis_now = 1700, adc_x = 2048, adc_y = 2048, gpio_pin = False\<rparr>,
          cdc_rx = [], cdc_millis = 1700\<rparr>] init_state = Inr (st3, outs3)
      \<and> sensitivity_level st3 = 3)
   \<and> level_changes ovf_saturate
        [\<lparr>hid_in = \<lparr>millis_gate = 600, hid_ready = True, rand_first = 0, rand_second = 0,
            millis_now = 600, adc_x = 2048, adc_y = 2048, gpio_pin = False\<rparr>,
          cdc_rx = [], cdc_millis = 600\<rparr>,
         \<lparr>hid_in = \<lparr>millis_gate = 1000, hid_ready = True, rand_first = 0, rand_second = 0,
            millis_now = 1000, adc_x = 2048, adc_y = 2048, gpio_pin = False\<rparr>,
          cdc_rx = [], cdc_millis = 1000\<rparr>,
         \<lparr>hid_in = \<lparr>millis_gate = 1500, hid_ready = True, rand_first = 0, rand_second = 0,
            millis_now = 1500, adc_x = 2048, adc_y = 2048, gpio_pin = False\<rparr>,
          cdc_rx = [], cdc_millis = 1500\<rparr>,
         \<lparr>hid_in = \<lparr>millis_gate = 1600, hid_ready = True, rand_first = 0, rand_second = 0,
            millis_now = 1600, adc_x = 2048, adc_y = 2048, gpio_pin = False\<rparr>,
          cdc_rx = [], cdc_millis = 1600\<rparr>,
         \<lparr>hid_in = \<lparr>millis_gate = 1700, hid_ready = True, rand_first = 0, rand_second = 0,
            millis_now = 1700, adc_x = 2048, adc_y = 2048, gpio_pin = False\<rparr>,
          cdc_rx = [], cdc_millis = 1700\<rparr>] init_state = 1"
    using first [THEN conjunct2, THEN conjunct2, THEN conjunct2, THEN conjunct1] evM
    by (simp add: init_state_def)
  have ep2: "(\<exists>st3 outs3. main_loop ovf_saturate
        [\<lparr>hid_in = \<lparr>millis_gate = 1900, hid_ready = True, rand_first = 0, rand_second = 0,
            millis_now = 1900, adc_x = 2048, adc_y = 2048, gpio_pin = False\<rparr>,
          cdc_rx = [], cdc_millis = 1900\<rparr>,
         \<lparr>hid_in = \<lparr>millis_gate = 2500, hid_ready = True, rand_first = 0, rand_second = 0,
            millis_now = 2500, adc_x = 2048, adc_y = 2048, gpio_pin = False\<rparr>,
          cdc_rx = [], cdc_millis = 2500\<rparr>,
         \<lparr>hid_in = \<lparr>millis_gate = 2900, hid_ready = True, rand_first = 0, rand_second = 0,
            millis_now = 2900, adc_x = 2048, adc_y = 2048, gpio_pin = False\<rparr>,
          cdc_rx = [], cdc_millis = 2900\<rparr>]
        (init_state\<lparr>sensitivity_level := 3, hid_start_ms := 6, button_press_start_time := 600,
                      sensitivity_changed := True\<rparr>) = Inr (st3, outs3)
      \<and> sensitivity_level st3 = 1)
   \<and> level_changes ovf_saturate
        [\<lparr>hid_in = \<lparr>millis_gate = 1900, hid_ready = True, rand_first = 0, rand_second = 0,
            millis_now = 1900, adc_x = 2048, adc_y = 2048, gpio_pin = False\<rparr>,
          cdc_rx = [], cdc_millis = 1900\<rparr>,
         \<lparr>hid_in = \<lparr>millis_gate = 2500, hid_ready = True, rand_first = 0, rand_second = 0,
            millis_now = 2500, adc_x = 2048, adc_y = 2048, gpio_pin = False\<rparr>,
          cdc_rx = [], cdc_millis = 2500\<rparr>,
         \<lparr>hid_in = \<lparr>millis_gate = 2900, hid_ready = True, rand_first = 0, rand_second = 0,
            millis_now = 2900, adc_x = 2048, adc_y = 2048, gpio_pin = False\<rparr>,
          cdc_rx = [], cdc_millis = 2900\<rparr>]
        (init_state\<lparr>sensitivity_level := 3, hid_start_ms := 6, button_press_start_time := 600,
                      sensitivity_changed := True\<rparr>) = 1"
    using second [THEN conjunct2, THEN conjunct2, THEN conjunct2, THEN conjunct1] evM2
    by (simp add: init_state_def)
  have edge: "(\<exists>st4 rep4. hid_task
         \<lparr>millis_gate = 600, hid_ready = True, rand_first = 0, rand_second = 0,
          millis_now = 600, adc_x = 2048, adc_y = 2048, gpio_pin = False\<rparr> init_state = Inr (st4, rep4)
      \<and> button_press_start_time st4 = 600 \<and> \<not> sensitivity_changed st4
      \<and> last_button_state st4 \<noteq> 0 \<and> sensitivity_level st4 = 2)"
    using sensitivity_cycle [where ovf = ovf_saturate and st = "init_state"
        and env = "\<lparr>millis_gate = 600, hid_ready = True, rand_first = 0, rand_second = 0,
          millis_now = 600, adc_x = 2048, adc_y = 2048, gpio_pin = False\<rparr>",
        THEN conjunct2, THEN conjunct2, THEN conjunct2, THEN conjunct2, THEN conjunct2, THEN conjunct2, THEN conjunct1]
    by (simp add: init_state_def)
  have below: "(\<exists>st5 rep5. hid_task
         \<lparr>millis_gate = 1599, hid_ready = True, rand_first = 0, rand_second = 0,
          millis_now = 1599, adc_x = 2048, adc_y = 2048, gpio_pin = False\<rparr>
         (init_state\<lparr>hid_start_ms := 3, last_button_state := 1, button_press_start_time := 600\<rparr>) = Inr (st5, rep5)
      \<and> button_press_start_time st5 = 600 \<and> \<not> sensitivity_changed st5
      \<and> last_button_state st5 \<noteq> 0 \<and> sensitivity_level st5 = 2)"
    using sensitivity_cycle [where ovf = ovf_saturate and st = "init_state\<lparr>hid_start_ms := 3, last_button_state := 1, button_press_start_time := 600\<rparr>"
        and env = "\<lparr>millis_gate = 1599, hid_ready = True, rand_first = 0, rand_second = 0,
          millis_now = 1599, adc_x = 2048, adc_y = 2048, gpio_pin = False\<rparr>",
        THEN conjunct2, THEN conjunct2, THEN conjunct2, THEN conjunct2, THEN conjunct2, THEN conjunct1]
    by (simp add: init_state_def)
  have adv: "(\<exists>st3 rep3. hid_task
         \<lparr>millis_gate = 1600, hid_ready = True, rand_first = 0, rand_second = 0,
          millis_now = 1600, adc_x = 2048, adc_y = 2048, gpio_pin = False\<rparr>
         (init_state\<lparr>hid_start_ms := 3, last_button_state := 1, button_press_start_time := 600\<rparr>) = Inr (st3, rep3)
      \<and> sensitivity_level st3 = 3 \<and> sensitivity_changed st3)"
    using sensitivity_cycle [where ovf = ovf_saturate and st = "init_state\<lparr>hid_start_ms := 3, last_button_state := 1, button_press_start_time := 600\<rparr>"
        and env = "\<lparr>millis_gate = 1600, hid_ready = True, rand_first = 0, rand_second = 0,
          millis_now = 1600, adc_x = 2048, adc_y = 2048, gpio_pin = False\<rparr>",
        THEN conjunct2, THEN conjunct2, THEN conjunct2, THEN conjunct2, THEN conjunct1]
    by (simp add: init_state_def)
  have rel: "(\<exists>st6 rep6. hid_task
         \<lparr>millis_gate = 1599, hid_ready = True, rand_first = 0, rand_second = 0,
          millis_now = 1599, adc_x = 2048, adc_y = 2048, gpio_pin = True\<rparr>
         (init_state\<lparr>hid_start_ms := 3, last_button_state := 1, button_press_start_time := 600\<rparr>) = Inr (st6, rep6)
      \<and> last_button_state st6 = 0 \<and> sensitivity_level st6 = 2)"
    using sensitivity_cycle [where ovf = ovf_saturate and st = "init_state\<lparr>hid_start_ms := 3, last_button_state := 1, button_press_start_time := 600\<rparr>"
        and env = "\<lparr>millis_gate = 1599, hid_ready = True, rand_first = 0, rand_second = 0,
          millis_now = 1599, adc_x = 2048, adc_y = 2048, gpio_pin = True\<rparr>",
        THEN conjunct2, THEN conjunct2, THEN conjunct2, THEN conjunct2, THEN conjunct2, THEN conjunct2, THEN conjunct2, THEN conjunct1]
    by (simp add: init_state_def)
  show ?thesis
    using evM held ep evR ep2 edge below adv rel by blast
qed



text \<open>
  Claim C10. From power-on, as long as no command has been accepted, a tick whose
  clock reading is below 500 ms never reaches the joystick path: it sends no report
  and changes nothing but the report timer, so no movement, no click and no
  handling of the sensitivity button happen. The time stamp of the arbitration
  window starts at 0 and is still 0 then.
\<close>

theorem power_on_suppression:
  assumes "main_loop ovf ins init_state = Inr (st, outs)"
    and "\<forall>out \<in> set outs. snd out \<noteq> Some ack_ok"
    and "millis_now env < 500"
  shows "(hid_task env st = Inr (st, None)
          \<or> hid_task env st = Inr (st\<lparr>hid_start_ms := hid_start_ms st + 1\<rparr>, None))
       \<and> cdc_command_time st = 0 \<and> \<not> cmd_has_data (mouse_cmd st)"
proof -
  have t: "cdc_command_time st = 0" and d: "\<not> cmd_has_data (mouse_cmd st)"
    using main_loop_never_accepted [OF assms(1,2)] by (simp_all add: init_state_def)
  have "hid_task env st = Inr (st, None)
          \<or> hid_task env st = Inr (st\<lparr>hid_start_ms := hid_start_ms st + 1\<rparr>, None)"
  proof (cases "millis_gate env - hid_start_ms st < 1")
    case True
    then show ?thesis by (simp add: hid_task_gate)
  next
    case gate: False
    show ?thesis
    proof (cases "hid_ready env")
      case True
      then show ?thesis using gate d t assms(3) by (simp add: hid_task_blocked)
    next
      case False
      then show ?thesis using gate by (simp add: hid_task_not_ready)
    qed
  qed
  then show ?thesis using t d by simp
qed

theorem power_on_suppression_witness:
  "main_loop ovf_saturate [\<lparr>hid_in = \<lparr>millis_gate = 100, hid_ready = True, rand_first = 0, rand_second = 0,
                         millis_now = 100, adc_x = 4095, adc_y = 0, gpio_pin = False\<rparr>,
               cdc_rx = ''hello'', cdc_millis = 101\<rparr>] init_state
     = Inr (init_state\<lparr>hid_start_ms := 1\<rparr>, [(None, Some ack_format_error)])
   \<and> hid_task \<lparr>millis_gate = 499, hid_ready = True, rand_first = 0, rand_second = 0,
               millis_now = 499, adc_x = 4095, adc_y = 0, gpio_pin = False\<rparr>
        (init_state\<lparr>hid_start_ms := 1\<rparr>)
       = Inr (init_state\<lparr>hid_start_ms := 2\<rparr>, None)"
proof -
  have sc: "sscanf_d ovf_saturate 7 (c_str (take 63 ''hello'')) = []"
    by code_simp
  have c: "cdc_task ovf_saturate ''hello'' 101 (init_state\<lparr>hid_start_ms := 1\<rparr>)
             = (init_state\<lparr>hid_start_ms := 1\<rparr>, Some ack_format_error)"
  proof (rule cdc_task_short)
    show "''hello'' \<noteq> []" by simp
    show "length (sscanf_d ovf_saturate 7 (c_str (take 63 ''hello''))) \<noteq> 7"
      unfolding sc by simp
  qed
  have run: "main_loop ovf_saturate [\<lparr>hid_in = \<lparr>millis_gate = 100, hid_ready = True, rand_first = 0, rand_second = 0,
                         millis_now = 100, adc_x = 4095, adc_y = 0, gpio_pin = False\<rparr>,
               cdc_rx = ''hello'', cdc_millis = 101\<rparr>] init_state
     = Inr (init_state\<lparr>hid_start_ms := 1\<rparr>, [(None, Some ack_format_error)])"
    using c by (simp add: hid_task_def init_state_def Let_def CDC_BLOCK_TIMEOUT_def)
  have no: "\<forall>out \<in> set [(None :: hid_report option, Some ack_format_error)]. snd out \<noteq> Some ack_ok"
    using acks_distinct by simp
  have lt: "millis_now \<lparr>millis_gate = 499, hid_ready = True, rand_first = 0, rand_second = 0,
               millis_now = 499, adc_x = 4095, adc_y = 0, gpio_pin = False\<rparr> < 500"
    by simp
  have g: "hid_task \<lparr>millis_gate = 499, hid_ready = True, rand_first = 0, rand_second = 0,
               millis_now = 499, adc_x = 4095, adc_y = 0, gpio_pin = False\<rparr>
        (init_state\<lparr>hid_start_ms := 1\<rparr>) \<noteq> Inr (init_state\<lparr>hid_start_ms := 1\<rparr>, None)"
    by (simp add: hid_task_def init_state_def Let_def CDC_BLOCK_TIMEOUT_def)
  show ?thesis
    using run g power_on_suppression [OF run no lt] by (simp add: init_state_def)
qed

end
